theory Spec2Isabelle
  imports Main "HOL-Library.Log_Nat" "HOL-Library.Multiset"
begin

section \<open>Bookings: the table and the conflict query\<close>

text \<open>
  A JavaScript \<open>Date\<close> and a SQL timestamp are modelled by the number of milliseconds
  since the epoch, an \<open>int\<close>; the comparisons \<open>gte\<close> and \<open>lte\<close> of the query builder
  are \<open>\<ge>\<close> and \<open>\<le>\<close> on it. The tables are declared in shared/schema.ts (in the
  sources it follows server/routes.ts, from line 499). A row of \<open>bookings\<close> has all
  eleven columns; \<open>purpose\<close> is the only one that may be null.
\<close>

type_synonym timestamp = int

record Booking =
  id :: int
  environmentId :: int
  teamId :: int
  userId :: int
  startDate :: timestamp
  endDate :: timestamp
  purpose :: "string option"
  configuration :: string
  status :: string
  createdAt :: timestamp
  updatedAt :: timestamp

text \<open>
  The \<open>where\<close> clause of \<open>checkBookingConflicts\<close> (server/storage.ts, lines 245-265):
  same environment, status \<open>scheduled\<close>, and one of the three cases, in the order of
  the source.
\<close>

definition conflictCase1 :: "timestamp \<Rightarrow> timestamp \<Rightarrow> timestamp \<Rightarrow> timestamp \<Rightarrow> bool" where
  \<comment> \<open>Case 1: New booking starts during an existing booking\<close>
  "conflictCase1 s e bs be = (s \<ge> bs \<and> s \<le> be)"

definition conflictCase2 :: "timestamp \<Rightarrow> timestamp \<Rightarrow> timestamp \<Rightarrow> timestamp \<Rightarrow> bool" where
  \<comment> \<open>Case 2: New booking ends during an existing booking\<close>
  "conflictCase2 s e bs be = (e \<ge> bs \<and> e \<le> be)"

definition conflictCase3 :: "timestamp \<Rightarrow> timestamp \<Rightarrow> timestamp \<Rightarrow> timestamp \<Rightarrow> bool" where
  \<comment> \<open>Case 3: New booking completely surrounds an existing booking\<close>
  "conflictCase3 s e bs be = (s \<le> bs \<and> e \<ge> be)"

definition threeCases :: "timestamp \<Rightarrow> timestamp \<Rightarrow> timestamp \<Rightarrow> timestamp \<Rightarrow> bool" where
  "threeCases s e bs be =
     (conflictCase1 s e bs be \<or> conflictCase2 s e bs be \<or> conflictCase3 s e bs be)"

definition conflictWhere :: "int \<Rightarrow> timestamp \<Rightarrow> timestamp \<Rightarrow> Booking \<Rightarrow> bool" where
  "conflictWhere env s e b =
     (environmentId b = env \<and> status b = ''scheduled'' \<and>
      threeCases s e (startDate b) (endDate b))"

text \<open>
  \<open>db.select().from(bookings).where(...)\<close>: the rows of the table that satisfy the
  clause, in the order of the table (the query has no \<open>orderBy\<close>).
\<close>

definition checkBookingConflicts ::
  "Booking list \<Rightarrow> int \<Rightarrow> timestamp \<Rightarrow> timestamp \<Rightarrow> Booking list" where
  "checkBookingConflicts rows env s e = filter (conflictWhere env s e) rows"

text \<open>
  The overlap rule in the words of the specification: two closed intervals
  \<open>[a_start, a_end]\<close> and \<open>[b_start, b_end]\<close> overlap iff
  \<open>a_start <= b_end AND a_end >= b_start\<close>.
\<close>

definition overlapRule :: "timestamp \<Rightarrow> timestamp \<Rightarrow> timestamp \<Rightarrow> timestamp \<Rightarrow> bool" where
  "overlapRule a_start a_end b_start b_end = (a_start \<le> b_end \<and> a_end \<ge> b_start)"

definition specConflict :: "int \<Rightarrow> timestamp \<Rightarrow> timestamp \<Rightarrow> Booking \<Rightarrow> bool" where
  "specConflict env s e b =
     (environmentId b = env \<and> status b = ''scheduled'' \<and>
      overlapRule s e (startDate b) (endDate b))"

text \<open>
  A stored booking occupies a closed interval: it does not end before it starts. The
  invariant of the data model (the end strictly later than the start) implies it.
\<close>

definition wellFormed :: "Booking \<Rightarrow> bool" where
  "wellFormed b = (startDate b \<le> endDate b)"

text \<open>Rows used as concrete inputs below: days as instants.\<close>

definition exampleRow :: "int \<Rightarrow> string \<Rightarrow> timestamp \<Rightarrow> timestamp \<Rightarrow> int \<Rightarrow> Booking" where
  "exampleRow env st s e n =
     \<lparr>id = n, environmentId = env, teamId = 1, userId = 1, startDate = s, endDate = e,
      purpose = Some ''Regression testing'', configuration = ''Standard Config'',
      status = st, createdAt = 0, updatedAt = 0\<rparr>"

section \<open>Creating a booking: storage and the POST /api/bookings handler\<close>

text \<open>
  \<open>BookingInsert\<close> is the type of \<open>bookingsInsertSchema\<close>, which the schema file
  derives from the table: the columns with a default (\<open>id\<close>, \<open>status\<close>, \<open>createdAt\<close>,
  \<open>updatedAt\<close>) and the nullable \<open>purpose\<close> are optional.
\<close>

record BookingInsert =
  id :: "int option"
  environmentId :: int
  teamId :: int
  userId :: int
  startDate :: timestamp
  endDate :: timestamp
  purpose :: "string option"
  configuration :: string
  status :: "string option"
  createdAt :: "timestamp option"
  updatedAt :: "timestamp option"

text \<open>
  The database as far as an insert into \<open>bookings\<close> depends on it: the keys of the
  three referenced tables, the rows of \<open>bookings\<close>, and the sequence behind its serial
  key.

  \<open>createBooking\<close> is \<open>db.insert(bookings).values(data).returning()\<close>. A column
  left out takes its default: the next value of the sequence, \<open>scheduled\<close>, the
  current time \<open>now\<close>. The insert throws when the key is taken or when the
  environment, the team or the user does not exist; a value drawn from the sequence
  stays drawn.
\<close>

record Database =
  environmentIds :: "int set"
  teamIds :: "int set"
  userIds :: "int set"
  rows :: "Booking list"
  idSeq :: int

datatype dbError = UniqueViolation | ForeignKeyViolation

definition createBooking ::
  "timestamp \<Rightarrow> Database \<Rightarrow> BookingInsert \<Rightarrow> (dbError + Booking) \<times> Database" where
  "createBooking now db d =
     (let key = (case BookingInsert.id d of Some k \<Rightarrow> k | None \<Rightarrow> idSeq db);
          db1 = (case BookingInsert.id d of Some k \<Rightarrow> db | None \<Rightarrow> db\<lparr>idSeq := idSeq db + 1\<rparr>);
          newBooking =
            \<lparr>Booking.id = key,
             Booking.environmentId = BookingInsert.environmentId d,
             Booking.teamId = BookingInsert.teamId d,
             Booking.userId = BookingInsert.userId d,
             Booking.startDate = BookingInsert.startDate d,
             Booking.endDate = BookingInsert.endDate d,
             Booking.purpose = BookingInsert.purpose d,
             Booking.configuration = BookingInsert.configuration d,
             Booking.status =
               (case BookingInsert.status d of Some st \<Rightarrow> st | None \<Rightarrow> ''scheduled''),
             Booking.createdAt =
               (case BookingInsert.createdAt d of Some c \<Rightarrow> c | None \<Rightarrow> now),
             Booking.updatedAt =
               (case BookingInsert.updatedAt d of Some u \<Rightarrow> u | None \<Rightarrow> now)\<rparr>
      in if key \<in> Booking.id ` set (rows db) then (Inl UniqueViolation, db1)
         else if BookingInsert.environmentId d \<in> environmentIds db
                 \<and> BookingInsert.teamId d \<in> teamIds db
                 \<and> BookingInsert.userId d \<in> userIds db
              then (Inr newBooking, db1\<lparr>rows := rows db @ [newBooking]\<rparr>)
              else (Inl ForeignKeyViolation, db1))"

text \<open>
  A response is its HTTP status and its JSON body. The handler of server/routes.ts,
  lines 176-203: \<open>bookingsInsertSchema.parse\<close> is the validator that the drizzle-zod
  library builds from the table, a parameter here; it returns the validated data or
  throws a \<open>ZodError\<close> (\<open>Inl\<close>), which the \<open>catch\<close> turns into status 400. Any other
  exception, here the one of the insert, ends in the last branch of the \<open>catch\<close>,
  status 500.
\<close>

datatype 'z json =
    BookingJson Booking
  | ConflictJson string "Booking list"
  | ErrorsJson 'z
  | ErrorJson string

type_synonym 'z response = "nat \<times> 'z json"

definition postBookings ::
  "timestamp \<Rightarrow> ('body \<Rightarrow> 'z + BookingInsert) \<Rightarrow> 'body \<Rightarrow> Database \<Rightarrow> 'z response \<times> Database" where
  "postBookings now bookingsInsertSchema_parse body db =
     (case bookingsInsertSchema_parse body of
        Inl zodError \<Rightarrow> ((400, ErrorsJson zodError), db)
      | Inr validatedData \<Rightarrow>
          (let conflicts = checkBookingConflicts (rows db)
                             (BookingInsert.environmentId validatedData)
                             (BookingInsert.startDate validatedData)
                             (BookingInsert.endDate validatedData)
           in if length conflicts > 0
              then ((409, ConflictJson ''Booking conflict detected'' conflicts), db)
              else (case createBooking now db validatedData of
                      (Inr newBooking, db') \<Rightarrow> ((201, BookingJson newBooking), db')
                    | (Inl error, db') \<Rightarrow> ((500, ErrorJson ''Failed to create booking''), db'))))"

text \<open>
  Concrete inputs: what the client form posts, and a database with three
  environments, four teams and one user, as the seed creates them.
\<close>

definition exampleInsert :: "int \<Rightarrow> timestamp \<Rightarrow> timestamp \<Rightarrow> BookingInsert" where
  "exampleInsert env s e =
     \<lparr>id = None, environmentId = env, teamId = 1, userId = 1, startDate = s, endDate = e,
      purpose = Some ''Regression testing'', configuration = ''Standard Config'',
      status = Some ''scheduled'', createdAt = None, updatedAt = None\<rparr>"

definition exampleDatabase :: "Booking list \<Rightarrow> int \<Rightarrow> Database" where
  "exampleDatabase rs n =
     \<lparr>environmentIds = {1, 2, 3}, teamIds = {1, 2, 3, 4}, userIds = {1}, rows = rs, idSeq = n\<rparr>"

section \<open>JavaScript numbers\<close>

text \<open>
  A JavaScript number is an IEEE 754 double: a finite value (here the rational it
  denotes), an infinity, or NaN. Every arithmetic operation returns the exact result
  rounded to the nearest double, ties to the even significand. The two zeros are
  identified; the code below never divides by a negative zero, and JSON prints both as
  \<open>0\<close>.

  \<open>ilog2 x\<close> is the binary exponent of a positive \<open>x\<close> (\<open>2 ^ e \<le> x < 2 ^ (e + 1)\<close>);
  a double has 53 significant bits, so its grid at exponent \<open>e\<close> has the step
  \<open>ulp = 2 ^ (e - 52)\<close>, and below the exponent \<open>-1022\<close> the step stays \<open>2 ^ -1074\<close>.
  A result that rounds to \<open>2 ^ 1024\<close> or beyond is an infinity.
\<close>

datatype number = Finite rat | PosInfinity | NegInfinity | NaN

definition pow2 :: "int \<Rightarrow> rat" where
  "pow2 k = (if 0 \<le> k then 2 ^ nat k else 1 / 2 ^ nat (- k))"

definition ilog2 :: "rat \<Rightarrow> int" where
  "ilog2 x = (if 1 \<le> x then bitlen \<lfloor>x\<rfloor> - 1 else - bitlen (\<lceil>1 / x\<rceil> - 1))"

definition roundTiesToEven :: "rat \<Rightarrow> int" where
  "roundTiesToEven r =
     (let f = \<lfloor>r\<rfloor>; d = r - of_int f
      in if d < 1 / 2 then f else if 1 / 2 < d then f + 1 else if even f then f else f + 1)"

definition ulp :: "rat \<Rightarrow> rat" where
  "ulp x = pow2 (max (ilog2 \<bar>x\<bar>) (- 1022) - 52)"

definition toDouble :: "rat \<Rightarrow> number" where
  "toDouble x =
     (if x = 0 then Finite 0
      else let m = roundTiesToEven (x / ulp x)
           in if 1024 \<le> ilog2 \<bar>x\<bar> \<or> (ilog2 \<bar>x\<bar> = 1023 \<and> \<bar>m\<bar> = 2 ^ 53)
              then (if 0 < x then PosInfinity else NegInfinity)
              else Finite (of_int m * ulp x))"

fun jsPlus :: "number \<Rightarrow> number \<Rightarrow> number" where
  "jsPlus (Finite x) (Finite y) = toDouble (x + y)"
| "jsPlus NaN _ = NaN"
| "jsPlus _ NaN = NaN"
| "jsPlus PosInfinity NegInfinity = NaN"
| "jsPlus NegInfinity PosInfinity = NaN"
| "jsPlus PosInfinity _ = PosInfinity"
| "jsPlus _ PosInfinity = PosInfinity"
| "jsPlus NegInfinity _ = NegInfinity"
| "jsPlus _ NegInfinity = NegInfinity"

fun jsDivide :: "number \<Rightarrow> number \<Rightarrow> number" where
  "jsDivide (Finite x) (Finite y) =
     (if y = 0 then (if x = 0 then NaN else if 0 < x then PosInfinity else NegInfinity)
      else toDouble (x / y))"
| "jsDivide NaN _ = NaN"
| "jsDivide _ NaN = NaN"
| "jsDivide (Finite x) _ = Finite 0"
| "jsDivide PosInfinity (Finite y) = (if 0 \<le> y then PosInfinity else NegInfinity)"
| "jsDivide NegInfinity (Finite y) = (if 0 \<le> y then NegInfinity else PosInfinity)"
| "jsDivide _ _ = NaN"

fun jsTimes :: "number \<Rightarrow> number \<Rightarrow> number" where
  "jsTimes (Finite x) (Finite y) = toDouble (x * y)"
| "jsTimes NaN _ = NaN"
| "jsTimes _ NaN = NaN"
| "jsTimes PosInfinity (Finite y) =
     (if y = 0 then NaN else if 0 < y then PosInfinity else NegInfinity)"
| "jsTimes NegInfinity (Finite y) =
     (if y = 0 then NaN else if 0 < y then NegInfinity else PosInfinity)"
| "jsTimes (Finite x) PosInfinity =
     (if x = 0 then NaN else if 0 < x then PosInfinity else NegInfinity)"
| "jsTimes (Finite x) NegInfinity =
     (if x = 0 then NaN else if 0 < x then NegInfinity else PosInfinity)"
| "jsTimes PosInfinity PosInfinity = PosInfinity"
| "jsTimes NegInfinity NegInfinity = PosInfinity"
| "jsTimes PosInfinity NegInfinity = NegInfinity"
| "jsTimes NegInfinity PosInfinity = NegInfinity"

text \<open>The comparisons \<open><=\<close> and \<open><\<close> of two numbers; every comparison with NaN is false.\<close>

fun jsLessEq :: "number \<Rightarrow> number \<Rightarrow> bool" where
  "jsLessEq (Finite x) (Finite y) = (x \<le> y)"
| "jsLessEq NaN _ = False"
| "jsLessEq _ NaN = False"
| "jsLessEq NegInfinity _ = True"
| "jsLessEq _ PosInfinity = True"
| "jsLessEq _ _ = False"

fun jsLess :: "number \<Rightarrow> number \<Rightarrow> bool" where
  "jsLess (Finite x) (Finite y) = (x < y)"
| "jsLess NaN _ = False"
| "jsLess _ NaN = False"
| "jsLess PosInfinity _ = False"
| "jsLess _ NegInfinity = False"
| "jsLess _ _ = True"

text \<open>
  \<open>Number(s)\<close> of a decimal column's string is the double nearest to the decimal; an
  integer column arrives as a number already, and the length of an array is a number.
\<close>

definition Number :: "rat \<Rightarrow> number" where
  "Number decimal = toDouble decimal"

definition ofInteger :: "int \<Rightarrow> number" where
  "ofInteger i = toDouble (of_int i)"

definition ofNat :: "nat \<Rightarrow> number" where
  "ofNat n = toDouble (of_nat n)"

section \<open>Metrics and daily status: tables and queries\<close>

text \<open>
  The tables \<open>metrics\<close> and \<open>daily_status\<close> of the schema file. \<open>uptime\<close>,
  \<open>resourceUtilization\<close>, \<open>occupancy\<close> and \<open>uptimePercentage\<close> are \<open>decimal(5, 2)\<close>
  columns, which the driver delivers as strings (their exact value is a rational);
  \<open>mttr\<close>, \<open>mtbf\<close> and the two incident columns are \<open>integer\<close>, delivered as numbers;
  \<open>status\<close> is \<open>text\<close>, and the table itself admits any string (only the insert
  schema of the HTTP route restricts it to the three values).
\<close>

record Metric =
  id :: int
  environmentId :: int
  date :: timestamp
  uptime :: rat
  mttr :: int
  mtbf :: int
  resourceUtilization :: rat
  occupancy :: rat

record DailyStatus =
  id :: int
  environmentId :: int
  date :: timestamp
  status :: string
  uptimePercentage :: rat
  hasIncident :: bool
  incidentCount :: int
  recoveryTime :: "int option"

text \<open>
  The query builder. A query under construction is its \<open>where\<close> condition, if any.
  What a second call of \<open>.where\<close> does with the condition of the first is decided by
  the query-builder library, which is not part of the sources: \<open>chain\<close> is a
  parameter (the conjunction of both, or the second alone).
\<close>

type_synonym 'r query = "('r \<Rightarrow> bool) option"

definition whereQ ::
  "(('r \<Rightarrow> bool) \<Rightarrow> ('r \<Rightarrow> bool) \<Rightarrow> ('r \<Rightarrow> bool)) \<Rightarrow> 'r query \<Rightarrow> ('r \<Rightarrow> bool) \<Rightarrow> 'r query" where
  "whereQ chain q c = (case q of None \<Rightarrow> Some c | Some c0 \<Rightarrow> Some (chain c0 c))"

definition runQ :: "'r query \<Rightarrow> 'r list \<Rightarrow> 'r list" where
  "runQ q rs = (case q of None \<Rightarrow> rs | Some c \<Rightarrow> filter c rs)"

text \<open>
  \<open>getMetrics\<close> (lines 41-65) and \<open>getDailyStatus\<close> (lines 110-134). An optional
  argument is an \<open>option\<close> (the parameters are \<open>environmentId\<close>, \<open>startDate\<close> and
  \<open>endDate\<close> of the source). \<open>if (environmentId)\<close> tests truthiness: \<open>undefined\<close> and
  \<open>0\<close> are falsy; a \<open>Date\<close> object is always truthy. \<open>orderBy\<close> is a stable sort on
  the date (SQL leaves the order of equal dates open).
\<close>

definition getMetrics ::
  "((Metric \<Rightarrow> bool) \<Rightarrow> (Metric \<Rightarrow> bool) \<Rightarrow> (Metric \<Rightarrow> bool)) \<Rightarrow> Metric list \<Rightarrow>
   int option \<Rightarrow> timestamp option \<Rightarrow> timestamp option \<Rightarrow> Metric list" where
  "getMetrics chain table envId startD endD =
     (let query = None;
          query = (case envId of
                     None \<Rightarrow> query
                   | Some n \<Rightarrow>
                       if n \<noteq> 0 then whereQ chain query (\<lambda>m. Metric.environmentId m = n)
                       else query);
          query = (case (startD, endD) of
                     (Some s, Some e) \<Rightarrow>
                       whereQ chain query (\<lambda>m. Metric.date m \<ge> s \<and> Metric.date m \<le> e)
                   | (Some s, None) \<Rightarrow> whereQ chain query (\<lambda>m. Metric.date m \<ge> s)
                   | (None, Some e) \<Rightarrow> whereQ chain query (\<lambda>m. Metric.date m \<le> e)
                   | (None, None) \<Rightarrow> query)
      in sort_key (\<lambda>m. - Metric.date m) (runQ query table))"

definition getDailyStatus ::
  "((DailyStatus \<Rightarrow> bool) \<Rightarrow> (DailyStatus \<Rightarrow> bool) \<Rightarrow> (DailyStatus \<Rightarrow> bool)) \<Rightarrow>
   DailyStatus list \<Rightarrow> int option \<Rightarrow> timestamp option \<Rightarrow> timestamp option \<Rightarrow> DailyStatus list" where
  "getDailyStatus chain table envId startD endD =
     (let query = None;
          query = (case envId of
                     None \<Rightarrow> query
                   | Some n \<Rightarrow>
                       if n \<noteq> 0 then whereQ chain query (\<lambda>d. DailyStatus.environmentId d = n)
                       else query);
          query = (case (startD, endD) of
                     (Some s, Some e) \<Rightarrow>
                       whereQ chain query (\<lambda>d. DailyStatus.date d \<ge> s \<and> DailyStatus.date d \<le> e)
                   | (Some s, None) \<Rightarrow> whereQ chain query (\<lambda>d. DailyStatus.date d \<ge> s)
                   | (None, Some e) \<Rightarrow> whereQ chain query (\<lambda>d. DailyStatus.date d \<le> e)
                   | (None, None) \<Rightarrow> query)
      in sort_key DailyStatus.date (runQ query table))"

section \<open>The analytics aggregators\<close>

text \<open>
  \<open>summarizeHealth\<close> is the body of \<open>getEnvironmentHealthAnalytics\<close> after the fetch
  (lines 370-393), under the name the specification gives it: \<open>reduce\<close> is a left
  fold from \<open>0\<close>, \<open>+\<close> and \<open>/\<close> are the operations on doubles.
\<close>

record HealthAnalytics =
  averageUptime :: number
  averageMTTR :: number
  averageMTBF :: number
  averageResourceUtilization :: number
  averageOccupancy :: number

definition summarizeHealth :: "Metric list \<Rightarrow> HealthAnalytics" where
  "summarizeHealth metricsData =
     (if length metricsData = 0
      then \<lparr>averageUptime = Finite 0, averageMTTR = Finite 0, averageMTBF = Finite 0,
            averageResourceUtilization = Finite 0, averageOccupancy = Finite 0\<rparr>
      else
        \<lparr>averageUptime =
           jsDivide (foldl (\<lambda>sum metric. jsPlus sum (Number (uptime metric))) (Finite 0) metricsData)
             (ofNat (length metricsData)),
         averageMTTR =
           jsDivide (foldl (\<lambda>sum metric. jsPlus sum (ofInteger (mttr metric))) (Finite 0) metricsData)
             (ofNat (length metricsData)),
         averageMTBF =
           jsDivide (foldl (\<lambda>sum metric. jsPlus sum (ofInteger (mtbf metric))) (Finite 0) metricsData)
             (ofNat (length metricsData)),
         averageResourceUtilization =
           jsDivide (foldl (\<lambda>sum metric. jsPlus sum (Number (resourceUtilization metric)))
                       (Finite 0) metricsData)
             (ofNat (length metricsData)),
         averageOccupancy =
           jsDivide (foldl (\<lambda>sum metric. jsPlus sum (Number (occupancy metric))) (Finite 0) metricsData)
             (ofNat (length metricsData))\<rparr>)"

definition getEnvironmentHealthAnalytics ::
  "((Metric \<Rightarrow> bool) \<Rightarrow> (Metric \<Rightarrow> bool) \<Rightarrow> (Metric \<Rightarrow> bool)) \<Rightarrow> Metric list \<Rightarrow>
   int option \<Rightarrow> timestamp option \<Rightarrow> timestamp option \<Rightarrow> HealthAnalytics" where
  "getEnvironmentHealthAnalytics chain table envId startD endD =
     summarizeHealth (getMetrics chain table envId startD endD)"

text \<open>
  \<open>summarizeGreenDays\<close> is the body of \<open>getGreenDaysAnalytics\<close> after the fetch (lines
  404-426). The four counts are lengths of arrays, kept as natural numbers; the
  percentage is computed on doubles.
\<close>

record GreenDaysAnalytics =
  totalDays :: nat
  greenDays :: nat
  yellowDays :: nat
  redDays :: nat
  greenDaysPercentage :: number

definition summarizeGreenDays :: "DailyStatus list \<Rightarrow> GreenDaysAnalytics" where
  "summarizeGreenDays statusData =
     (if length statusData = 0
      then \<lparr>totalDays = 0, greenDays = 0, yellowDays = 0, redDays = 0,
            greenDaysPercentage = Finite 0\<rparr>
      else
        (let green = length (filter (\<lambda>day. status day = ''healthy'') statusData);
             yellow = length (filter (\<lambda>day. status day = ''issues'') statusData);
             red = length (filter (\<lambda>day. status day = ''down'') statusData);
             total = length statusData
         in \<lparr>totalDays = total, greenDays = green, yellowDays = yellow, redDays = red,
             greenDaysPercentage = jsTimes (jsDivide (ofNat green) (ofNat total)) (Finite 100)\<rparr>))"

definition getGreenDaysAnalytics ::
  "((DailyStatus \<Rightarrow> bool) \<Rightarrow> (DailyStatus \<Rightarrow> bool) \<Rightarrow> (DailyStatus \<Rightarrow> bool)) \<Rightarrow>
   DailyStatus list \<Rightarrow> int option \<Rightarrow> timestamp option \<Rightarrow> timestamp option \<Rightarrow> GreenDaysAnalytics" where
  "getGreenDaysAnalytics chain table envId startD endD =
     summarizeGreenDays (getDailyStatus chain table envId startD endD)"

text \<open>
  The mean in the words of the specification: standard floating-point summation
  divided by the count.
\<close>

definition floatSum :: "number list \<Rightarrow> number" where
  "floatSum vs = foldl jsPlus (Finite 0) vs"

definition arithmeticMean :: "number list \<Rightarrow> number" where
  "arithmeticMean vs = jsDivide (floatSum vs) (ofNat (length vs))"

text \<open>The three status values that \<open>summarizeGreenDays\<close> counts.\<close>

definition knownStatus :: "DailyStatus \<Rightarrow> bool" where
  "knownStatus day = (status day = ''healthy'' \<or> status day = ''issues'' \<or> status day = ''down'')"

text \<open>Records used as concrete inputs below.\<close>

definition exampleMetric :: "rat \<Rightarrow> Metric" where
  "exampleMetric u =
     \<lparr>Metric.id = 1, Metric.environmentId = 1, Metric.date = 0, uptime = u, mttr = 45, mtbf = 20160,
      resourceUtilization = 80, occupancy = 90\<rparr>"

definition exampleDay :: "string \<Rightarrow> DailyStatus" where
  "exampleDay st =
     \<lparr>id = 1, environmentId = 1, date = 0, status = st, uptimePercentage = 99,
      hasIncident = False, incidentCount = 0, recoveryTime = None\<rparr>"

section \<open>Properties of the conflict query\<close>

subsection \<open>The three cases and the overlap rule\<close>

lemma overlapRule_threeCases: "overlapRule s e bs be \<Longrightarrow> threeCases s e bs be"
  unfolding overlapRule_def threeCases_def conflictCase1_def conflictCase2_def conflictCase3_def
  by linarith

lemma threeCases_overlapRule:
  "s \<le> e \<Longrightarrow> bs \<le> be \<Longrightarrow> threeCases s e bs be \<Longrightarrow> overlapRule s e bs be"
  unfolding overlapRule_def threeCases_def conflictCase1_def conflictCase2_def conflictCase3_def
  by linarith

lemma threeCases_self: "threeCases s e s e"
  unfolding threeCases_def conflictCase1_def conflictCase2_def conflictCase3_def
  by linarith

text \<open>
  C2. For every pair of closed intervals, the proposed \<open>[s, e]\<close> with \<open>s < e\<close> and
  the existing \<open>[bs, be]\<close> (a closed interval: \<open>bs \<le> be\<close>), the three-case
  disjunction of the query is equivalent to the single inequality pair
  \<open>s \<le> be \<and> e \<ge> bs\<close>.
\<close>

theorem threeCases_iff_overlapRule:
  assumes "s < e" and "bs \<le> be"
  shows "threeCases s e bs be \<longleftrightarrow> overlapRule s e bs be"
proof
  assume "threeCases s e bs be"
  with assms show "overlapRule s e bs be"
    by (simp add: threeCases_overlapRule)
next
  assume "overlapRule s e bs be"
  then show "threeCases s e bs be"
    by (rule overlapRule_threeCases)
qed

theorem threeCases_iff_overlapRule_witness:
  "(10::int) < 12 \<and> (5::int) \<le> 10 \<and> threeCases 10 12 5 10 \<and> overlapRule 10 12 5 10"
proof -
  have a: "(10::int) < 12" and b: "(5::int) \<le> 10"
    by simp_all
  have "overlapRule 10 12 5 10"
    by (simp add: overlapRule_def)
  with threeCases_iff_overlapRule [OF a b] a b show ?thesis
    by simp
qed

subsection \<open>What the query returns\<close>

lemma conflictWhere_specConflict:
  "s \<le> e \<Longrightarrow> wellFormed b \<Longrightarrow> conflictWhere env s e b = specConflict env s e b"
  unfolding conflictWhere_def specConflict_def wellFormed_def
  using overlapRule_threeCases threeCases_overlapRule by blast

lemma filter_conflictWhere:
  "s \<le> e \<Longrightarrow> list_all wellFormed rs \<Longrightarrow>
   filter (conflictWhere env s e) rs = filter (specConflict env s e) rs"
  by (induction rs) (simp_all add: conflictWhere_specConflict)

lemma specConflict_conflictWhere: "specConflict env s e b \<Longrightarrow> conflictWhere env s e b"
  by (simp add: specConflict_def conflictWhere_def overlapRule_threeCases)

text \<open>
  C1. For every booking store (of bookings that do not end before they start, as the
  data model has them), every environment and every proposed interval \<open>[s, e]\<close>
  with \<open>s < e\<close>, \<open>checkBookingConflicts\<close> returns exactly the stored bookings of
  that environment with status \<open>scheduled\<close> whose interval satisfies
  \<open>s \<le> endDate \<and> e \<ge> startDate\<close>; in particular such a booking that shares only a
  boundary instant with the proposed interval is returned. On every store whatsoever,
  a stored booking that satisfies the three conditions is returned, and a booking
  whose status is not \<open>scheduled\<close> is never returned.
\<close>

theorem checkBookingConflicts_exact:
  "(s < e \<and> list_all wellFormed rs \<longrightarrow>
      checkBookingConflicts rs env s e = filter (specConflict env s e) rs
    \<and> (b \<in> set rs \<and> Booking.environmentId b = env \<and> Booking.status b = ''scheduled''
         \<and> (Booking.endDate b = s \<or> Booking.startDate b = e)
       \<longrightarrow> b \<in> set (checkBookingConflicts rs env s e)))
   \<and> (b \<in> set rs \<and> specConflict env s e b \<longrightarrow> b \<in> set (checkBookingConflicts rs env s e))
   \<and> (Booking.status b \<noteq> ''scheduled'' \<longrightarrow> b \<notin> set (checkBookingConflicts rs env s e))"
proof (intro conjI impI)
  assume h: "s < e \<and> list_all wellFormed rs"
  then show eq: "checkBookingConflicts rs env s e = filter (specConflict env s e) rs"
    by (simp add: checkBookingConflicts_def filter_conflictWhere)
  show "b \<in> set (checkBookingConflicts rs env s e)"
    if t: "b \<in> set rs \<and> Booking.environmentId b = env \<and> Booking.status b = ''scheduled''
         \<and> (Booking.endDate b = s \<or> Booking.startDate b = e)"
  proof -
    from t h have "wellFormed b"
      by (simp add: list_all_iff)
    with t h have "overlapRule s e (Booking.startDate b) (Booking.endDate b)"
      unfolding overlapRule_def wellFormed_def by linarith
    with t show ?thesis
      by (simp add: eq specConflict_def)
  qed
next
  show "b \<in> set (checkBookingConflicts rs env s e)" if "b \<in> set rs \<and> specConflict env s e b"
    using that by (simp add: checkBookingConflicts_def specConflict_conflictWhere)
  show "b \<notin> set (checkBookingConflicts rs env s e)" if "Booking.status b \<noteq> ''scheduled''"
    using that by (simp add: checkBookingConflicts_def conflictWhere_def)
qed

text \<open>
  The boundary-touch case of the specification: proposed \<open>[10, 12]\<close> against an
  existing scheduled \<open>[5, 10]\<close>; a completed booking of the same days and a scheduled
  one of another environment are not returned.
\<close>

theorem checkBookingConflicts_exact_witness:
  "(10::int) < 12
   \<and> list_all wellFormed
        [exampleRow 1 ''scheduled'' 5 10 1, exampleRow 1 ''completed'' 5 10 2,
         exampleRow 2 ''scheduled'' 5 10 3]
   \<and> Booking.endDate (exampleRow 1 ''scheduled'' 5 10 1) = 10
   \<and> checkBookingConflicts
        [exampleRow 1 ''scheduled'' 5 10 1, exampleRow 1 ''completed'' 5 10 2,
         exampleRow 2 ''scheduled'' 5 10 3] 1 10 12
      = [exampleRow 1 ''scheduled'' 5 10 1]"
proof -
  let ?rs = "[exampleRow 1 ''scheduled'' 5 10 1, exampleRow 1 ''completed'' 5 10 2,
              exampleRow 2 ''scheduled'' 5 10 3]"
  have a: "(10::int) < 12"
    by simp
  have b: "list_all wellFormed ?rs"
    by (simp add: wellFormed_def exampleRow_def)
  have c: "Booking.endDate (exampleRow 1 ''scheduled'' 5 10 1) = 10"
    by (simp add: exampleRow_def)
  have "filter (specConflict 1 10 12) ?rs = [exampleRow 1 ''scheduled'' 5 10 1]"
    by (simp add: specConflict_def overlapRule_def exampleRow_def)
  with checkBookingConflicts_exact [of 10 12 ?rs 1 "exampleRow 1 ''scheduled'' 5 10 1"] a b c
  show ?thesis
    by simp
qed

subsection \<open>A stored booking and itself\<close>

text \<open>
  C4. The query has no exclusion by identity: it takes no booking id, and for every
  stored booking \<open>b\<close> with status \<open>scheduled\<close> the result of
  \<open>checkBookingConflicts\<close> on \<open>b\<close>'s own environment and interval contains \<open>b\<close>.
  (The handler runs the query before the insert, when the new booking is not stored
  yet.)
\<close>

theorem checkBookingConflicts_contains_self:
  assumes "b \<in> set rs" and "Booking.status b = ''scheduled''"
  shows "b \<in> set (checkBookingConflicts rs (Booking.environmentId b) (Booking.startDate b)
                    (Booking.endDate b))"
  using assms by (simp add: checkBookingConflicts_def conflictWhere_def threeCases_self)

theorem checkBookingConflicts_contains_self_witness:
  "exampleRow 1 ''scheduled'' 5 10 1 \<in> set [exampleRow 1 ''scheduled'' 5 10 1]
   \<and> Booking.status (exampleRow 1 ''scheduled'' 5 10 1) = ''scheduled''
   \<and> exampleRow 1 ''scheduled'' 5 10 1
       \<in> set (checkBookingConflicts [exampleRow 1 ''scheduled'' 5 10 1]
                (Booking.environmentId (exampleRow 1 ''scheduled'' 5 10 1))
                (Booking.startDate (exampleRow 1 ''scheduled'' 5 10 1))
                (Booking.endDate (exampleRow 1 ''scheduled'' 5 10 1)))"
proof -
  let ?b = "exampleRow 1 ''scheduled'' 5 10 1"
  have a: "?b \<in> set [?b]"
    by simp
  have s: "Booking.status ?b = ''scheduled''"
    by (simp add: exampleRow_def)
  from checkBookingConflicts_contains_self [OF a s] a s show ?thesis
    by simp
qed

theorem checkBookingConflicts_self_counterexample:
  "checkBookingConflicts [exampleRow 1 ''scheduled'' 5 10 1] 1 5 10
     = [exampleRow 1 ''scheduled'' 5 10 1]"
  by (simp add: checkBookingConflicts_def conflictWhere_def threeCases_def conflictCase1_def
      exampleRow_def)

section \<open>Properties of the POST /api/bookings handler\<close>

lemma createBooking_accepted:
  assumes "key = (case BookingInsert.id d of Some k \<Rightarrow> k | None \<Rightarrow> idSeq db)"
    and "key \<notin> Booking.id ` set (rows db)"
    and "BookingInsert.environmentId d \<in> environmentIds db"
    and "BookingInsert.teamId d \<in> teamIds db"
    and "BookingInsert.userId d \<in> userIds db"
  shows "createBooking now db d =
     (Inr \<lparr>Booking.id = key,
           Booking.environmentId = BookingInsert.environmentId d,
           Booking.teamId = BookingInsert.teamId d,
           Booking.userId = BookingInsert.userId d,
           Booking.startDate = BookingInsert.startDate d,
           Booking.endDate = BookingInsert.endDate d,
           Booking.purpose = BookingInsert.purpose d,
           Booking.configuration = BookingInsert.configuration d,
           Booking.status =
             (case BookingInsert.status d of Some st \<Rightarrow> st | None \<Rightarrow> ''scheduled''),
           Booking.createdAt =
             (case BookingInsert.createdAt d of Some c \<Rightarrow> c | None \<Rightarrow> now),
           Booking.updatedAt =
             (case BookingInsert.updatedAt d of Some u \<Rightarrow> u | None \<Rightarrow> now)\<rparr>,
      db\<lparr>rows := rows db @
             [\<lparr>Booking.id = key,
               Booking.environmentId = BookingInsert.environmentId d,
               Booking.teamId = BookingInsert.teamId d,
               Booking.userId = BookingInsert.userId d,
               Booking.startDate = BookingInsert.startDate d,
               Booking.endDate = BookingInsert.endDate d,
               Booking.purpose = BookingInsert.purpose d,
               Booking.configuration = BookingInsert.configuration d,
               Booking.status =
                 (case BookingInsert.status d of Some st \<Rightarrow> st | None \<Rightarrow> ''scheduled''),
               Booking.createdAt =
                 (case BookingInsert.createdAt d of Some c \<Rightarrow> c | None \<Rightarrow> now),
               Booking.updatedAt =
                 (case BookingInsert.updatedAt d of Some u \<Rightarrow> u | None \<Rightarrow> now)\<rparr>],
         idSeq := (case BookingInsert.id d of Some k \<Rightarrow> idSeq db | None \<Rightarrow> idSeq db + 1)\<rparr>)"
  using assms by (cases "BookingInsert.id d") (simp_all add: createBooking_def Let_def)

lemma createBooking_refused:
  assumes "key = (case BookingInsert.id d of Some k \<Rightarrow> k | None \<Rightarrow> idSeq db)"
    and "\<not> (key \<notin> Booking.id ` set (rows db)
            \<and> BookingInsert.environmentId d \<in> environmentIds db
            \<and> BookingInsert.teamId d \<in> teamIds db
            \<and> BookingInsert.userId d \<in> userIds db)"
  shows "\<exists>err. createBooking now db d =
     (Inl err,
      db\<lparr>idSeq := (case BookingInsert.id d of Some k \<Rightarrow> idSeq db | None \<Rightarrow> idSeq db + 1)\<rparr>)"
  using assms by (cases "BookingInsert.id d") (auto simp: createBooking_def Let_def)

text \<open>
  C3. For a request whose body passes validation: if \<open>checkBookingConflicts\<close> on the
  requested environment and interval returns a non-empty list, the response is status
  409 carrying that list and the database is unchanged. If it returns the empty list,
  the insert is attempted. When the database accepts the row (the key is free; the
  environment, the team and the user exist), the response is status 201 with the new
  booking, which has the fields of the request and the defaults of the columns left
  out, and that booking is appended to the store. When the insert throws, the
  response is status 500 and no booking is stored.
\<close>

theorem postBookings_conflict_gate:
  assumes "parse body = Inr d"
    and "conflicts = checkBookingConflicts (rows db) (BookingInsert.environmentId d)
           (BookingInsert.startDate d) (BookingInsert.endDate d)"
    and "key = (case BookingInsert.id d of Some k \<Rightarrow> k | None \<Rightarrow> idSeq db)"
    and "newBooking =
           \<lparr>Booking.id = key,
            Booking.environmentId = BookingInsert.environmentId d,
            Booking.teamId = BookingInsert.teamId d,
            Booking.userId = BookingInsert.userId d,
            Booking.startDate = BookingInsert.startDate d,
            Booking.endDate = BookingInsert.endDate d,
            Booking.purpose = BookingInsert.purpose d,
            Booking.configuration = BookingInsert.configuration d,
            Booking.status =
              (case BookingInsert.status d of Some st \<Rightarrow> st | None \<Rightarrow> ''scheduled''),
            Booking.createdAt =
              (case BookingInsert.createdAt d of Some c \<Rightarrow> c | None \<Rightarrow> now),
            Booking.updatedAt =
              (case BookingInsert.updatedAt d of Some u \<Rightarrow> u | None \<Rightarrow> now)\<rparr>"
    and "accepted =
           (key \<notin> Booking.id ` set (rows db)
            \<and> BookingInsert.environmentId d \<in> environmentIds db
            \<and> BookingInsert.teamId d \<in> teamIds db
            \<and> BookingInsert.userId d \<in> userIds db)"
    and "seq = (case BookingInsert.id d of Some k \<Rightarrow> idSeq db | None \<Rightarrow> idSeq db + 1)"
  shows "(conflicts \<noteq> [] \<longrightarrow>
            postBookings now parse body db
              = ((409, ConflictJson ''Booking conflict detected'' conflicts), db))
       \<and> (conflicts = [] \<and> accepted \<longrightarrow>
            postBookings now parse body db
              = ((201, BookingJson newBooking),
                 db\<lparr>rows := rows db @ [newBooking], idSeq := seq\<rparr>))
       \<and> (conflicts = [] \<and> \<not> accepted \<longrightarrow>
            postBookings now parse body db
              = ((500, ErrorJson ''Failed to create booking''), db\<lparr>idSeq := seq\<rparr>))"
proof (intro conjI impI)
  assume "conflicts \<noteq> []"
  with assms(1,2) show "postBookings now parse body db
      = ((409, ConflictJson ''Booking conflict detected'' conflicts), db)"
    by (simp add: postBookings_def Let_def)
next
  assume h: "conflicts = [] \<and> accepted"
  with assms(5) have acc: "key \<notin> Booking.id ` set (rows db)"
      "BookingInsert.environmentId d \<in> environmentIds db"
      "BookingInsert.teamId d \<in> teamIds db" "BookingInsert.userId d \<in> userIds db"
    by simp_all
  from h assms(1,2) show "postBookings now parse body db
      = ((201, BookingJson newBooking), db\<lparr>rows := rows db @ [newBooking], idSeq := seq\<rparr>)"
    by (simp add: postBookings_def Let_def createBooking_accepted [OF assms(3) acc]
        assms(4) assms(6))
next
  assume h: "conflicts = [] \<and> \<not> accepted"
  with assms(5) have "\<not> (key \<notin> Booking.id ` set (rows db)
            \<and> BookingInsert.environmentId d \<in> environmentIds db
            \<and> BookingInsert.teamId d \<in> teamIds db
            \<and> BookingInsert.userId d \<in> userIds db)"
    by simp
  from createBooking_refused [OF assms(3) this, of now]
  obtain err where "createBooking now db d = (Inl err, db\<lparr>idSeq := seq\<rparr>)"
    unfolding assms(6) by blast
  with h assms(1,2) show "postBookings now parse body db
      = ((500, ErrorJson ''Failed to create booking''), db\<lparr>idSeq := seq\<rparr>)"
    by (simp add: postBookings_def Let_def)
qed

text \<open>
  The three branches at a database holding the scheduled \<open>[5, 10]\<close> of environment
  1: the request for \<open>[10, 12]\<close> is turned down with the stored row and leaves the
  database as it was; the request for \<open>[11, 15]\<close> is stored under the next key, with
  the fields it was posted with; the request for \<open>[11, 15]\<close> in an environment that
  does not exist has no conflict either, and is answered with status 500.
\<close>

lemma no_conflict_example:
  "checkBookingConflicts [exampleRow 1 ''scheduled'' 5 10 1] env 11 15 = []"
  by (simp add: checkBookingConflicts_def conflictWhere_def threeCases_def conflictCase1_def
      conflictCase2_def conflictCase3_def exampleRow_def)

lemma conflict_example:
  "checkBookingConflicts [exampleRow 1 ''scheduled'' 5 10 1] 1 10 12
     = [exampleRow 1 ''scheduled'' 5 10 1]"
  by (simp add: checkBookingConflicts_def conflictWhere_def threeCases_def conflictCase1_def
      exampleRow_def)

theorem postBookings_conflict_gate_witness:
  "postBookings 1000 (Inr :: BookingInsert \<Rightarrow> unit + BookingInsert) (exampleInsert 1 10 12)
       (exampleDatabase [exampleRow 1 ''scheduled'' 5 10 1] 2)
     = ((409, ConflictJson ''Booking conflict detected'' [exampleRow 1 ''scheduled'' 5 10 1]),
        exampleDatabase [exampleRow 1 ''scheduled'' 5 10 1] 2)
   \<and> postBookings 1000 (Inr :: BookingInsert \<Rightarrow> unit + BookingInsert) (exampleInsert 1 11 15)
       (exampleDatabase [exampleRow 1 ''scheduled'' 5 10 1] 2)
     = ((201, BookingJson
          \<lparr>Booking.id = 2, Booking.environmentId = 1, Booking.teamId = 1, Booking.userId = 1,
           Booking.startDate = 11, Booking.endDate = 15,
           Booking.purpose = Some ''Regression testing'',
           Booking.configuration = ''Standard Config'', Booking.status = ''scheduled'',
           Booking.createdAt = 1000, Booking.updatedAt = 1000\<rparr>),
        exampleDatabase
          [exampleRow 1 ''scheduled'' 5 10 1,
           \<lparr>Booking.id = 2, Booking.environmentId = 1, Booking.teamId = 1, Booking.userId = 1,
            Booking.startDate = 11, Booking.endDate = 15,
            Booking.purpose = Some ''Regression testing'',
            Booking.configuration = ''Standard Config'', Booking.status = ''scheduled'',
            Booking.createdAt = 1000, Booking.updatedAt = 1000\<rparr>] 3)"
proof -
  let ?db = "exampleDatabase [exampleRow 1 ''scheduled'' 5 10 1] 2"
  have p: "Inr x = (Inr x :: unit + BookingInsert)" for x
    by simp
  have c1: "checkBookingConflicts (rows ?db) (BookingInsert.environmentId (exampleInsert 1 10 12))
              (BookingInsert.startDate (exampleInsert 1 10 12))
              (BookingInsert.endDate (exampleInsert 1 10 12))
            = [exampleRow 1 ''scheduled'' 5 10 1]"
    by (simp add: exampleDatabase_def exampleInsert_def conflict_example)
  have c2: "checkBookingConflicts (rows ?db) (BookingInsert.environmentId (exampleInsert 1 11 15))
              (BookingInsert.startDate (exampleInsert 1 11 15))
              (BookingInsert.endDate (exampleInsert 1 11 15))
            = []"
    by (simp add: exampleDatabase_def exampleInsert_def no_conflict_example)
  from postBookings_conflict_gate [of Inr "exampleInsert 1 10 12" "exampleInsert 1 10 12",
      OF p refl refl refl refl refl, of ?db 1000]
  have first: "postBookings 1000 (Inr :: BookingInsert \<Rightarrow> unit + BookingInsert)
       (exampleInsert 1 10 12) ?db
     = ((409, ConflictJson ''Booking conflict detected'' [exampleRow 1 ''scheduled'' 5 10 1]), ?db)"
    by (simp add: c1)
  from postBookings_conflict_gate [of Inr "exampleInsert 1 11 15" "exampleInsert 1 11 15",
      OF p refl refl refl refl refl, of ?db 1000]
  have second: "postBookings 1000 (Inr :: BookingInsert \<Rightarrow> unit + BookingInsert)
       (exampleInsert 1 11 15) ?db
     = ((201, BookingJson
          \<lparr>Booking.id = 2, Booking.environmentId = 1, Booking.teamId = 1, Booking.userId = 1,
           Booking.startDate = 11, Booking.endDate = 15,
           Booking.purpose = Some ''Regression testing'',
           Booking.configuration = ''Standard Config'', Booking.status = ''scheduled'',
           Booking.createdAt = 1000, Booking.updatedAt = 1000\<rparr>),
        exampleDatabase
          [exampleRow 1 ''scheduled'' 5 10 1,
           \<lparr>Booking.id = 2, Booking.environmentId = 1, Booking.teamId = 1, Booking.userId = 1,
            Booking.startDate = 11, Booking.endDate = 15,
            Booking.purpose = Some ''Regression testing'',
            Booking.configuration = ''Standard Config'', Booking.status = ''scheduled'',
            Booking.createdAt = 1000, Booking.updatedAt = 1000\<rparr>] 3)"
    by (simp add: c2) (simp add: exampleDatabase_def exampleInsert_def exampleRow_def)
  from first second show ?thesis
    by (rule conjI)
qed

theorem postBookings_foreign_key_counterexample:
  "(Inr (exampleInsert 999 11 15) :: unit + BookingInsert) = Inr (exampleInsert 999 11 15)
   \<and> checkBookingConflicts (rows (exampleDatabase [exampleRow 1 ''scheduled'' 5 10 1] 2))
        (BookingInsert.environmentId (exampleInsert 999 11 15))
        (BookingInsert.startDate (exampleInsert 999 11 15))
        (BookingInsert.endDate (exampleInsert 999 11 15)) = []
   \<and> postBookings 1000 (Inr :: BookingInsert \<Rightarrow> unit + BookingInsert) (exampleInsert 999 11 15)
       (exampleDatabase [exampleRow 1 ''scheduled'' 5 10 1] 2)
     = ((500, ErrorJson ''Failed to create booking''),
        exampleDatabase [exampleRow 1 ''scheduled'' 5 10 1] 3)"
  by (simp add: postBookings_def createBooking_def Let_def exampleDatabase_def exampleInsert_def
      no_conflict_example)

section \<open>Properties of the number model\<close>

subsection \<open>Binary exponents\<close>

lemma pow2_powi: "pow2 k = 2 powi k"
  by (simp add: pow2_def power_int_def power_one_over inverse_eq_divide)

lemma pow2_pos: "0 < pow2 k"
  by (simp add: pow2_powi)

lemma pow2_add: "pow2 (a + b) = pow2 a * pow2 b"
  by (simp add: pow2_powi power_int_add)

lemma pow2_nat: "0 \<le> k \<Longrightarrow> pow2 k = 2 ^ nat k"
  by (simp add: pow2_def)

lemma pow2_mono: "a \<le> b \<Longrightarrow> pow2 a \<le> pow2 b"
  by (simp add: pow2_powi power_int_increasing)

lemma pow2_less_cancel: "pow2 a < pow2 b \<Longrightarrow> a < b"
  using pow2_mono [of b a] by (cases "a < b") auto

lemma ilog2_lower: assumes "0 < x" shows "pow2 (ilog2 x) \<le> x"
proof (cases "1 \<le> x")
  case True
  then have n: "0 < \<lfloor>x\<rfloor>" by simp
  from bitlen_bounds [OF n] have "(2::int) ^ nat (bitlen \<lfloor>x\<rfloor> - 1) \<le> \<lfloor>x\<rfloor>" by simp
  then have "(of_int ((2::int) ^ nat (bitlen \<lfloor>x\<rfloor> - 1)) :: rat) \<le> of_int \<lfloor>x\<rfloor>"
    by (simp only: of_int_le_iff)
  also have "\<dots> \<le> x" by simp
  finally have "(2::rat) ^ nat (bitlen \<lfloor>x\<rfloor> - 1) \<le> x" by simp
  moreover from n have "0 \<le> bitlen \<lfloor>x\<rfloor> - 1"
    by (simp add: bitlen_alt_def)
  ultimately show ?thesis using True
    by (simp add: ilog2_def pow2_nat)
next
  case False
  define k where "k = \<lceil>1 / x\<rceil> - 1"
  from False assms have "1 < 1 / x" by simp
  then have "1 < \<lceil>1 / x\<rceil>" by (simp add: less_ceiling_iff)
  then have k: "0 < k" by (simp add: k_def)
  from bitlen_bounds [OF k] have "k < 2 ^ nat (bitlen k)" by simp
  then have "\<lceil>1 / x\<rceil> \<le> 2 ^ nat (bitlen k)" by (simp add: k_def)
  then have "1 / x \<le> of_int ((2::int) ^ nat (bitlen k))"
    by (simp only: ceiling_le_iff)
  then have "1 / x \<le> 2 ^ nat (bitlen k)" by simp
  with assms have "1 \<le> 2 ^ nat (bitlen k) * x"
    by (simp add: field_simps)
  then have "1 / 2 ^ nat (bitlen k) \<le> x"
    by (simp add: field_simps)
  moreover from k have "0 < bitlen k" by (simp add: bitlen_alt_def)
  ultimately show ?thesis using False
    by (simp add: ilog2_def pow2_def k_def)
qed

lemma ilog2_upper: assumes "0 < x" shows "x < pow2 (ilog2 x + 1)"
proof (cases "1 \<le> x")
  case True
  then have n: "0 < \<lfloor>x\<rfloor>" by simp
  from n have b: "0 < bitlen \<lfloor>x\<rfloor>" by (simp add: bitlen_alt_def)
  from bitlen_bounds [OF n] have "\<lfloor>x\<rfloor> < 2 ^ nat (bitlen \<lfloor>x\<rfloor>)" by simp
  then have "\<lfloor>x\<rfloor> + 1 \<le> 2 ^ nat (bitlen \<lfloor>x\<rfloor>)" by simp
  then have "(of_int (\<lfloor>x\<rfloor> + 1) :: rat) \<le> of_int (2 ^ nat (bitlen \<lfloor>x\<rfloor>))"
    by (simp only: of_int_le_iff)
  moreover have "x < of_int (\<lfloor>x\<rfloor> + 1)" by linarith
  ultimately have "x < 2 ^ nat (bitlen \<lfloor>x\<rfloor>)" by simp
  with True b show ?thesis
    by (simp add: ilog2_def pow2_nat)
next
  case False
  define k where "k = \<lceil>1 / x\<rceil> - 1"
  from False assms have "1 < 1 / x" by simp
  then have "1 < \<lceil>1 / x\<rceil>" by (simp add: less_ceiling_iff)
  then have k: "0 < k" by (simp add: k_def)
  then have b: "0 < bitlen k" by (simp add: bitlen_alt_def)
  from bitlen_bounds [OF k] have le: "2 ^ nat (bitlen k - 1) \<le> k" by simp
  have "(2::rat) ^ nat (bitlen k - 1) = of_int (2 ^ nat (bitlen k - 1))" by simp
  also from le have "\<dots> \<le> of_int k"
    by (simp only: of_int_le_iff)
  also have "of_int k < 1 / x"
    unfolding k_def by linarith
  finally have lt: "2 ^ nat (bitlen k - 1) < 1 / x" .
  with assms have "2 ^ nat (bitlen k - 1) * x < 1"
    by (simp add: field_simps)
  then have "x < 1 / 2 ^ nat (bitlen k - 1)"
    by (simp add: field_simps)
  moreover have "pow2 (- bitlen k + 1) = 1 / 2 ^ nat (bitlen k - 1)"
  proof (cases "bitlen k = 1")
    case True
    then show ?thesis by (simp add: pow2_def)
  next
    case False
    with b have "\<not> 0 \<le> - bitlen k + 1" by simp
    then show ?thesis by (simp add: pow2_def)
  qed
  ultimately show ?thesis using False
    by (simp add: ilog2_def k_def)
qed

lemma ilog2_mono: assumes "0 < x" and "x \<le> y" shows "ilog2 x \<le> ilog2 y"
proof -
  from assms have y: "0 < y" by simp
  have "pow2 (ilog2 x) \<le> x" using assms(1) by (rule ilog2_lower)
  also note assms(2)
  also have "y < pow2 (ilog2 y + 1)" using y by (rule ilog2_upper)
  finally have "ilog2 x < ilog2 y + 1" by (rule pow2_less_cancel)
  then show ?thesis by simp
qed

lemma ilog2_less: assumes "0 < x" and "x < pow2 k" shows "ilog2 x < k"
proof -
  have "pow2 (ilog2 x) \<le> x" using assms(1) by (rule ilog2_lower)
  also note assms(2)
  finally show ?thesis by (rule pow2_less_cancel)
qed

lemma ilog2_ge: assumes "pow2 k \<le> x" shows "k \<le> ilog2 x"
proof -
  from assms pow2_pos [of k] have x: "0 < x" by simp
  note assms
  also have "x < pow2 (ilog2 x + 1)" using x by (rule ilog2_upper)
  finally have "k < ilog2 x + 1" by (rule pow2_less_cancel)
  then show ?thesis by simp
qed

subsection \<open>Rounding to the nearest double\<close>

lemma roundTiesToEven_ge_floor: "\<lfloor>r\<rfloor> \<le> roundTiesToEven r"
  by (simp add: roundTiesToEven_def Let_def)

lemma roundTiesToEven_le_ceiling: "roundTiesToEven r \<le> \<lceil>r\<rceil>"
proof (cases "r = of_int \<lfloor>r\<rfloor>")
  case True
  then have "r - of_int \<lfloor>r\<rfloor> = 0" by simp
  then have "roundTiesToEven r = \<lfloor>r\<rfloor>"
    by (simp add: roundTiesToEven_def Let_def)
  then show ?thesis by (simp add: floor_le_ceiling)
next
  case False
  then have "\<lceil>r\<rceil> = \<lfloor>r\<rfloor> + 1" by (simp add: ceiling_altdef)
  then show ?thesis by (simp add: roundTiesToEven_def Let_def)
qed

lemma roundTiesToEven_of_int: "roundTiesToEven (of_int n) = n"
  by (simp add: roundTiesToEven_def)

lemma roundTiesToEven_mono:
  assumes "r \<le> s"
  shows "roundTiesToEven r \<le> roundTiesToEven s"
proof (cases "\<lfloor>r\<rfloor> < \<lfloor>s\<rfloor>")
  case True
  have "roundTiesToEven r \<le> \<lfloor>r\<rfloor> + 1"
    by (simp add: roundTiesToEven_def Let_def)
  also from True have "\<dots> \<le> \<lfloor>s\<rfloor>" by simp
  also have "\<dots> \<le> roundTiesToEven s" by (rule roundTiesToEven_ge_floor)
  finally show ?thesis .
next
  case False
  with assms have eq: "\<lfloor>r\<rfloor> = \<lfloor>s\<rfloor>"
    using floor_mono [of r s] by simp
  with assms have "r - of_int \<lfloor>r\<rfloor> \<le> s - of_int \<lfloor>s\<rfloor>" by simp
  with eq show ?thesis
    by (auto simp: roundTiesToEven_def Let_def)
qed

lemma ulp_pos: "0 < ulp x"
  by (simp add: ulp_def pow2_pos)

lemma toDouble_finite:
  assumes "0 < x" and "x < pow2 1023"
  shows "toDouble x = Finite (of_int (roundTiesToEven (x / ulp x)) * ulp x)"
proof -
  from assms have "ilog2 x < 1023" by (rule ilog2_less)
  with assms(1) show ?thesis
    by (simp add: toDouble_def Let_def)
qed

lemma rounded_nonneg:
  assumes "0 < x"
  shows "0 \<le> of_int (roundTiesToEven (x / ulp x)) * ulp x"
proof -
  from assms ulp_pos [of x] have "0 \<le> x / ulp x" by simp
  then have "0 \<le> \<lfloor>x / ulp x\<rfloor>" by simp
  also have "\<dots> \<le> roundTiesToEven (x / ulp x)" by (rule roundTiesToEven_ge_floor)
  finally have "0 \<le> roundTiesToEven (x / ulp x)" .
  with ulp_pos [of x] show ?thesis by simp
qed

lemma rounded_upper:
  assumes "0 < x"
  shows "of_int (roundTiesToEven (x / ulp x)) * ulp x \<le> pow2 (max (ilog2 x) (- 1022) + 1)"
proof -
  define E where "E = max (ilog2 x) (- 1022)"
  define B :: int where "B = 2 ^ 53"
  from assms have u: "ulp x = pow2 (E - 52)" by (simp add: ulp_def E_def)
  have "E + 1 = 53 + (E - 52)" by simp
  then have "pow2 (E + 1) = pow2 (53 + (E - 52))" by (rule arg_cong)
  also have "\<dots> = pow2 53 * pow2 (E - 52)" by (rule pow2_add)
  also have "pow2 53 = of_int B" by (simp add: pow2_nat B_def)
  finally have split: "pow2 (E + 1) = of_int B * ulp x" by (simp only: u)
  have "x < pow2 (ilog2 x + 1)" using assms by (rule ilog2_upper)
  also have "\<dots> \<le> pow2 (E + 1)" by (rule pow2_mono) (simp add: E_def)
  finally have "x < of_int B * ulp x" by (simp only: split)
  with ulp_pos [of x] have "x / ulp x \<le> of_int B"
    by (simp add: field_simps)
  then have "\<lceil>x / ulp x\<rceil> \<le> B" by (simp only: ceiling_le_iff)
  with roundTiesToEven_le_ceiling [of "x / ulp x"]
  have "roundTiesToEven (x / ulp x) \<le> B" by (rule order_trans)
  then have "(of_int (roundTiesToEven (x / ulp x)) :: rat) \<le> of_int B"
    by (simp only: of_int_le_iff)
  with ulp_pos [of x]
  have "of_int (roundTiesToEven (x / ulp x)) * ulp x \<le> of_int B * ulp x"
    by (simp only: mult_le_cancel_right_pos)
  then show ?thesis by (simp only: split [symmetric] E_def)
qed

lemma rounded_lower:
  assumes "0 < x" and "- 1022 \<le> ilog2 x"
  shows "pow2 (ilog2 x) \<le> of_int (roundTiesToEven (x / ulp x)) * ulp x"
proof -
  define B :: int where "B = 2 ^ 52"
  from assms have u: "ulp x = pow2 (ilog2 x - 52)" by (simp add: ulp_def max_def)
  have "ilog2 x = 52 + (ilog2 x - 52)" by simp
  then have "pow2 (ilog2 x) = pow2 (52 + (ilog2 x - 52))" by (rule arg_cong)
  also have "\<dots> = pow2 52 * pow2 (ilog2 x - 52)" by (rule pow2_add)
  also have "pow2 52 = of_int B" by (simp add: pow2_nat B_def)
  finally have split: "pow2 (ilog2 x) = of_int B * ulp x" by (simp only: u)
  have "pow2 (ilog2 x) \<le> x" using assms(1) by (rule ilog2_lower)
  then have "of_int B * ulp x \<le> x" by (simp only: split)
  with ulp_pos [of x] have "of_int B \<le> x / ulp x"
    by (simp add: field_simps)
  then have "B \<le> \<lfloor>x / ulp x\<rfloor>" by (simp only: le_floor_iff)
  also have "\<dots> \<le> roundTiesToEven (x / ulp x)" by (rule roundTiesToEven_ge_floor)
  finally have "(of_int B :: rat) \<le> of_int (roundTiesToEven (x / ulp x))"
    by (simp only: of_int_le_iff)
  with ulp_pos [of x]
  have "of_int B * ulp x \<le> of_int (roundTiesToEven (x / ulp x)) * ulp x"
    by (simp only: mult_le_cancel_right_pos)
  then show ?thesis by (simp only: split [symmetric])
qed

lemma rounded_mono:
  assumes "0 < x" and "x \<le> y"
  shows "of_int (roundTiesToEven (x / ulp x)) * ulp x
       \<le> of_int (roundTiesToEven (y / ulp y)) * ulp y"
proof -
  from assms have y: "0 < y" by simp
  define Ex where "Ex = max (ilog2 x) (- 1022)"
  define Ey where "Ey = max (ilog2 y) (- 1022)"
  from assms have "ilog2 x \<le> ilog2 y" by (rule ilog2_mono)
  then have le: "Ex \<le> Ey" by (simp add: Ex_def Ey_def)
  show ?thesis
  proof (cases "Ex = Ey")
    case True
    with assms(1) y have u: "ulp x = ulp y" by (simp add: ulp_def Ex_def Ey_def)
    from assms(2) ulp_pos [of y] have "x / ulp y \<le> y / ulp y"
      by (simp add: divide_right_mono)
    then have "roundTiesToEven (x / ulp y) \<le> roundTiesToEven (y / ulp y)"
      by (rule roundTiesToEven_mono)
    then have "(of_int (roundTiesToEven (x / ulp y)) :: rat) \<le> of_int (roundTiesToEven (y / ulp y))"
      by (simp only: of_int_le_iff)
    with ulp_pos [of y] show ?thesis
      by (simp only: u mult_le_cancel_right_pos)
  next
    case False
    with le have lt: "Ex < Ey" by simp
    then have ey: "Ey = ilog2 y" and norm: "- 1022 \<le> ilog2 y"
      by (auto simp: Ex_def Ey_def max_def split: if_splits)
    have "of_int (roundTiesToEven (x / ulp x)) * ulp x \<le> pow2 (Ex + 1)"
      unfolding Ex_def using assms(1) by (rule rounded_upper)
    also from lt have "\<dots> \<le> pow2 Ey" by (intro pow2_mono) simp
    also have "\<dots> \<le> of_int (roundTiesToEven (y / ulp y)) * ulp y"
      unfolding ey using y norm by (rule rounded_lower)
    finally show ?thesis .
  qed
qed

text \<open>
  Rounding is monotone on the finite non-negative range, and integers below
  \<open>2 ^ 53\<close> in absolute value are doubles.
\<close>

lemma toDouble_mono:
  assumes "0 \<le> x" and "x \<le> y" and "y < pow2 1023"
  shows "\<exists>a b. toDouble x = Finite a \<and> toDouble y = Finite b \<and> 0 \<le> a \<and> a \<le> b"
proof (cases "x = 0")
  case True
  show ?thesis
  proof (cases "y = 0")
    case True
    with \<open>x = 0\<close> show ?thesis by (simp add: toDouble_def)
  next
    case False
    with assms True have y: "0 < y" by simp
    from y assms(3) have "toDouble y = Finite (of_int (roundTiesToEven (y / ulp y)) * ulp y)"
      by (rule toDouble_finite)
    with rounded_nonneg [OF y] True show ?thesis by (simp add: toDouble_def)
  qed
next
  case False
  with assms have x: "0 < x" and y: "0 < y" and xb: "x < pow2 1023" by simp_all
  from x xb have "toDouble x = Finite (of_int (roundTiesToEven (x / ulp x)) * ulp x)"
    by (rule toDouble_finite)
  moreover from y assms(3) have "toDouble y = Finite (of_int (roundTiesToEven (y / ulp y)) * ulp y)"
    by (rule toDouble_finite)
  ultimately show ?thesis
    using rounded_nonneg [OF x] rounded_mono [OF x assms(2)] by simp
qed

lemma toDouble_of_int:
  assumes "\<bar>n\<bar> < 2 ^ 53"
  shows "toDouble (of_int n) = Finite (of_int n)"
proof (cases "n = 0")
  case True
  then show ?thesis by (simp add: toDouble_def)
next
  case False
  define x :: rat where "x = of_int n"
  define e where "e = ilog2 \<bar>x\<bar>"
  from False have x0: "x \<noteq> 0" and pos: "0 < \<bar>x\<bar>" by (simp_all add: x_def)
  from False have "1 \<le> \<bar>n\<bar>" by simp
  then have "(of_int 1 :: rat) \<le> of_int \<bar>n\<bar>" by (simp only: of_int_le_iff)
  then have "pow2 0 \<le> \<bar>x\<bar>" by (simp add: x_def pow2_def)
  then have e0: "0 \<le> e" unfolding e_def by (rule ilog2_ge)
  from assms have "(of_int \<bar>n\<bar> :: rat) < of_int (2 ^ 53)" by (simp only: of_int_less_iff)
  then have "\<bar>x\<bar> < pow2 53" by (simp add: x_def pow2_nat)
  with pos have e53: "e < 53" unfolding e_def by (rule ilog2_less)
  from e0 e53 have u: "ulp x = 1 / 2 ^ nat (52 - e)"
    by (simp add: ulp_def e_def [symmetric] pow2_def max_def nat_diff_distrib)
  then have "x / ulp x = of_int (n * 2 ^ nat (52 - e))" by (simp add: x_def)
  then have r: "roundTiesToEven (x / ulp x) = n * 2 ^ nat (52 - e)"
    by (simp only: roundTiesToEven_of_int)
  have "of_int (roundTiesToEven (x / ulp x)) * ulp x
          = of_int (n * 2 ^ nat (52 - e)) * (1 / 2 ^ nat (52 - e))"
    by (subst r, subst u, rule refl)
  also have "\<dots> = x" by (simp add: x_def)
  finally have "of_int (roundTiesToEven (x / ulp x)) * ulp x = x" .
  with x0 e53 have "toDouble x = Finite x"
    by (simp add: toDouble_def Let_def e_def [symmetric])
  then show ?thesis by (simp only: x_def)
qed

lemma ofNat_exact: "n < 2 ^ 53 \<Longrightarrow> ofNat n = Finite (of_nat n)"
proof -
  assume "n < 2 ^ 53"
  then have "int n < int (2 ^ 53)" by (simp only: of_nat_less_iff)
  also have "int (2 ^ 53) = 2 ^ 53" by simp
  finally have "int n < 2 ^ 53" .
  then have "\<bar>int n\<bar> < 2 ^ 53" by simp
  then have "toDouble (of_int (int n)) = Finite (of_int (int n))" by (rule toDouble_of_int)
  then show ?thesis by (simp add: ofNat_def)
qed

lemma ofInteger_exact: "\<bar>i\<bar> < 2 ^ 53 \<Longrightarrow> ofInteger i = Finite (of_int i)"
  by (simp add: ofInteger_def toDouble_of_int)

lemma hundred_less_pow2: "100 < pow2 1023"
proof -
  have "(100::rat) < pow2 7" by (simp add: pow2_def)
  also have "\<dots> \<le> pow2 1023" by (rule pow2_mono) simp
  finally show ?thesis .
qed

lemma toDouble_1: "toDouble 1 = Finite 1"
  using toDouble_of_int [of 1] by simp

lemma toDouble_unit_interval:
  assumes "0 \<le> x" and "x \<le> y" and "y \<le> 1"
  shows "\<exists>a b. toDouble x = Finite a \<and> toDouble y = Finite b \<and> 0 \<le> a \<and> a \<le> b \<and> b \<le> 1"
proof -
  have one: "(1::rat) < pow2 1023"
    using hundred_less_pow2 by simp
  from assms one have "y < pow2 1023" by simp
  with assms obtain a b where ab: "toDouble x = Finite a" "toDouble y = Finite b" "0 \<le> a" "a \<le> b"
    using toDouble_mono [of x y] by blast
  from assms have "0 \<le> y" by simp
  with assms(3) one obtain b' c where "toDouble y = Finite b'" "toDouble 1 = Finite c" "b' \<le> c"
    using toDouble_mono [of y 1] by blast
  with ab have "b \<le> 1" by (simp add: toDouble_1)
  with ab show ?thesis by blast
qed

lemma percentage_antimono:
  assumes "g \<le> t" and "0 < t" and "Suc t < 2 ^ 53"
  shows "jsLessEq (jsTimes (jsDivide (ofNat g) (ofNat (Suc t))) (Finite 100))
                  (jsTimes (jsDivide (ofNat g) (ofNat t)) (Finite 100))"
proof -
  from assms have g: "ofNat g = Finite (of_nat g)" and t: "ofNat t = Finite (of_nat t)"
    and t1: "ofNat (Suc t) = Finite (of_nat (Suc t))"
    by (simp_all add: ofNat_exact)
  define x :: rat where "x = of_nat g / of_nat (Suc t)"
  define y :: rat where "y = of_nat g / of_nat t"
  have x0: "0 \<le> x" by (simp add: x_def)
  from assms(2) have xy: "x \<le> y"
    unfolding x_def y_def by (intro divide_left_mono) simp_all
  from assms(1,2) have y1: "y \<le> 1" by (simp add: y_def)
  from x0 xy y1 obtain a b where ab: "toDouble x = Finite a" "toDouble y = Finite b"
      "0 \<le> a" "a \<le> b" "b \<le> 1"
    using toDouble_unit_interval by blast
  from ab have "0 \<le> a * 100" "a * 100 \<le> b * 100" "b * 100 < pow2 1023"
    using hundred_less_pow2 by simp_all
  then obtain a' b' where ab': "toDouble (a * 100) = Finite a'" "toDouble (b * 100) = Finite b'"
      "a' \<le> b'"
    using toDouble_mono [of "a * 100" "b * 100"] by blast
  have "of_nat (Suc t) \<noteq> (0::rat)" by simp
  then have "jsDivide (Finite (of_nat g)) (Finite (of_nat (Suc t))) = toDouble x"
    by (simp only: jsDivide.simps x_def if_False)
  then have d1: "jsDivide (ofNat g) (ofNat (Suc t)) = Finite a"
    by (simp only: g t1 ab)
  from assms(2) have "of_nat t \<noteq> (0::rat)" by simp
  then have "jsDivide (Finite (of_nat g)) (Finite (of_nat t)) = toDouble y"
    by (simp only: jsDivide.simps y_def if_False)
  then have d2: "jsDivide (ofNat g) (ofNat t) = Finite b"
    by (simp only: g t ab)
  from ab' show ?thesis
    by (simp only: d1 d2 jsTimes.simps jsLessEq.simps)
qed

subsection \<open>The rounding error\<close>

text \<open>
  In the normal range a rounded value differs from the exact one by at most the
  fraction \<open>2 ^ -53\<close> of it. Two quotients \<open>g / (t + 1)\<close> and \<open>g / t\<close> of counts
  below \<open>2 ^ 32\<close> are further apart than that, also after the multiplication by 100.
\<close>

lemma roundTiesToEven_error: "\<bar>of_int (roundTiesToEven r) - r\<bar> \<le> 1 / 2"
proof -
  have "of_int \<lfloor>r\<rfloor> \<le> r" and "r < of_int \<lfloor>r\<rfloor> + 1"
    by linarith+
  then show ?thesis
    by (auto simp: roundTiesToEven_def Let_def abs_le_iff)
qed

lemma rounded_error:
  assumes "0 < x" and "- 1022 \<le> ilog2 x"
  shows "\<bar>of_int (roundTiesToEven (x / ulp x)) * ulp x - x\<bar> \<le> x / 2 ^ 53"
proof -
  define B :: rat where "B = 2 ^ 52"
  have B: "0 < B" by (simp add: B_def)
  from assms have u: "ulp x = pow2 (ilog2 x - 52)" by (simp add: ulp_def max_def)
  have "ilog2 x = 52 + (ilog2 x - 52)" by simp
  then have "pow2 (ilog2 x) = pow2 (52 + (ilog2 x - 52))" by (rule arg_cong)
  also have "\<dots> = pow2 52 * pow2 (ilog2 x - 52)" by (rule pow2_add)
  also have "pow2 52 = B" by (simp add: pow2_nat B_def)
  finally have split: "pow2 (ilog2 x) = B * ulp x" by (simp only: u)
  have "pow2 (ilog2 x) \<le> x" using assms(1) by (rule ilog2_lower)
  then have ux: "B * ulp x \<le> x" by (simp only: split)
  have "of_int (roundTiesToEven (x / ulp x)) * ulp x - x
          = (of_int (roundTiesToEven (x / ulp x)) - x / ulp x) * ulp x"
    using ulp_pos [of x] by (simp add: field_simps)
  then have "\<bar>of_int (roundTiesToEven (x / ulp x)) * ulp x - x\<bar>
          = \<bar>of_int (roundTiesToEven (x / ulp x)) - x / ulp x\<bar> * ulp x"
    using ulp_pos [of x] by (simp add: abs_mult)
  also have "\<dots> \<le> 1 / 2 * ulp x"
    using roundTiesToEven_error [of "x / ulp x"] ulp_pos [of x]
    by (simp only: mult_le_cancel_right_pos)
  also have "\<dots> = (B * ulp x) / (2 * B)"
    using B by simp
  also have "\<dots> \<le> x / (2 * B)"
  proof (rule divide_right_mono)
    show "B * ulp x \<le> x" by (rule ux)
    show "0 \<le> 2 * B" using B by simp
  qed
  also have "2 * B = 2 ^ 53" by (simp add: B_def)
  finally show ?thesis .
qed

lemma toDouble_error:
  assumes "pow2 (- 1022) \<le> x" and "x < pow2 1023"
  shows "\<exists>a. toDouble x = Finite a \<and> x - x / 2 ^ 53 \<le> a \<and> a \<le> x + x / 2 ^ 53"
proof -
  from assms(1) pow2_pos [of "- 1022"] have x: "0 < x" by simp
  from assms(1) have n: "- 1022 \<le> ilog2 x" by (rule ilog2_ge)
  from x assms(2) have "toDouble x = Finite (of_int (roundTiesToEven (x / ulp x)) * ulp x)"
    by (rule toDouble_finite)
  moreover from rounded_error [OF x n]
  have "x - x / 2 ^ 53 \<le> of_int (roundTiesToEven (x / ulp x)) * ulp x
      \<and> of_int (roundTiesToEven (x / ulp x)) * ulp x \<le> x + x / 2 ^ 53"
    by linarith
  ultimately show ?thesis
    by blast
qed


lemma ratio_gap:
  fixes G T e :: rat
  assumes G: "0 < G" and T: "0 < T" and e0: "0 \<le> e" and small: "4 * T * e + 2 * e < 1"
  shows "G / (T + 1) * ((1 + e) * (1 + e)) < G / T * ((1 - e) * (1 - e))"
proof -
  have "T * ((1 + e) * (1 + e)) - (T + 1) * ((1 - e) * (1 - e))
          = 4 * T * e + 2 * e - 1 - e * e"
    by (simp add: algebra_simps)
  moreover have "0 \<le> e * e" by simp
  ultimately have key: "T * ((1 + e) * (1 + e)) < (T + 1) * ((1 - e) * (1 - e))"
    using small by linarith
  define p where "p = (1 + e) * (1 + e)"
  define q where "q = (1 - e) * (1 - e)"
  from T have T1: "0 < T + 1" by simp
  from key have "T * p < (T + 1) * q" by (simp only: p_def q_def)
  with T T1 have "p / (T + 1) < q / T"
    by (simp add: field_simps)
  with G have "G * (p / (T + 1)) < G * (q / T)"
    by (simp only: mult_less_cancel_left_pos)
  then have "G / (T + 1) * p < G / T * q"
    by simp
  then show ?thesis by (simp only: p_def q_def)
qed

lemma percentage_strict:
  assumes "0 < g" and "g \<le> t" and "Suc t < 2 ^ 32"
  shows "jsLess (jsTimes (jsDivide (ofNat g) (ofNat (Suc t))) (Finite 100))
                (jsTimes (jsDivide (ofNat g) (ofNat t)) (Finite 100))"
proof -
  define G :: rat where "G = of_nat g"
  define T :: rat where "T = of_nat t"
  define e :: rat where "e = 1 / 2 ^ 53"
  define x where "x = G / (T + 1)"
  define y where "y = G / T"
  have e: "0 < e" "e \<le> 1 / 2" and e32: "(4 * 2 ^ 32 + 2) * e < 1"
    by (simp_all add: e_def)
  from assms have G: "1 \<le> G" and GT: "G \<le> T"
    by (simp_all add: G_def T_def)
  then have T: "1 \<le> T" by simp
  from assms(3) have "Suc t \<le> 2 ^ 32" by simp
  then have "(of_nat (Suc t) :: rat) \<le> of_nat (2 ^ 32)" by (simp only: of_nat_le_iff)
  then have T32: "T + 1 \<le> 2 ^ 32" by (simp add: T_def add.commute)
  have small: "4 * T * e + 2 * e < 1"
  proof -
    from T32 have "T \<le> 2 ^ 32" by simp
    with e(1) have "4 * T * e \<le> 4 * 2 ^ 32 * e" by simp
    then have "4 * T * e + 2 * e \<le> (4 * 2 ^ 32 + 2) * e" by (simp add: algebra_simps)
    with e32 show ?thesis by simp
  qed
  have x0: "0 < x" and y0: "0 < y" using G T by (simp_all add: x_def y_def)
  have xy: "x \<le> y"
    unfolding x_def y_def using G T by (intro divide_left_mono) simp_all
  have y1: "y \<le> 1" using GT T by (simp add: y_def)
  have xlow: "1 / 2 ^ 32 \<le> x"
  proof -
    have "1 / 2 ^ 32 \<le> 1 / (T + 1)"
      using T T32 by (intro divide_left_mono) simp_all
    also have "\<dots> \<le> G / (T + 1)"
      using G T by (intro divide_right_mono) simp_all
    finally show ?thesis by (simp only: x_def)
  qed
  have tiny: "pow2 (- 1022) \<le> 1 / 2 ^ 33"
  proof -
    have "pow2 (- 1022) \<le> pow2 (- 33)" by (rule pow2_mono) simp
    then show ?thesis by (simp add: pow2_def)
  qed
  have big: "(200::rat) < pow2 1023"
  proof -
    have "(200::rat) < pow2 8" by (simp add: pow2_def)
    also have "\<dots> \<le> pow2 1023" by (rule pow2_mono) simp
    finally show ?thesis .
  qed
  have "pow2 (- 1022) \<le> x" using tiny xlow by simp
  moreover have "x < pow2 1023" using xy y1 big by simp
  ultimately obtain a where a: "toDouble x = Finite a" "x - x / 2 ^ 53 \<le> a" "a \<le> x + x / 2 ^ 53"
    using toDouble_error by blast
  have "pow2 (- 1022) \<le> y" using tiny xlow xy by simp
  moreover have "y < pow2 1023" using y1 big by simp
  ultimately obtain b where b: "toDouble y = Finite b" "y - y / 2 ^ 53 \<le> b" "b \<le> y + y / 2 ^ 53"
    using toDouble_error by blast
  have a_lo: "x * (1 - e) \<le> a" and a_hi: "a \<le> x * (1 + e)"
    using a(2,3) by (simp_all add: e_def algebra_simps)
  have b_lo: "y * (1 - e) \<le> b" and b_hi: "b \<le> y * (1 + e)"
    using b(2,3) by (simp_all add: e_def algebra_simps)
  have half: "1 / 2 \<le> 1 - e" and two: "1 + e \<le> 2" using e by simp_all
  have a_ge: "1 / 2 ^ 33 \<le> a"
  proof -
    have "1 / 2 ^ 33 = 1 / 2 ^ 32 * (1 / 2 :: rat)" by simp
    also have "\<dots> \<le> x * (1 - e)"
      using xlow half x0 by (intro mult_mono) simp_all
    also note a_lo
    finally show ?thesis .
  qed
  have b_ge: "1 / 2 ^ 33 \<le> b"
  proof -
    have "1 / 2 ^ 33 = 1 / 2 ^ 32 * (1 / 2 :: rat)" by simp
    also have "\<dots> \<le> y * (1 - e)"
      using xlow xy half y0 by (intro mult_mono) simp_all
    also note b_lo
    finally show ?thesis .
  qed
  have a_le: "a \<le> 2"
  proof -
    note a_hi
    also have "x * (1 + e) \<le> 1 * 2"
      using xy y1 two x0 e by (intro mult_mono) simp_all
    finally show ?thesis by simp
  qed
  have b_le: "b \<le> 2"
  proof -
    note b_hi
    also have "y * (1 + e) \<le> 1 * 2"
      using y1 two y0 e by (intro mult_mono) simp_all
    finally show ?thesis by simp
  qed
  have "pow2 (- 1022) \<le> a * 100" using tiny a_ge by simp
  moreover have "a * 100 < pow2 1023" using a_le big by simp
  ultimately obtain a' where a': "toDouble (a * 100) = Finite a'"
      "a' \<le> a * 100 + a * 100 / 2 ^ 53"
    using toDouble_error by blast
  have "pow2 (- 1022) \<le> b * 100" using tiny b_ge by simp
  moreover have "b * 100 < pow2 1023" using b_le big by simp
  ultimately obtain b' where b': "toDouble (b * 100) = Finite b'"
      "b * 100 - b * 100 / 2 ^ 53 \<le> b'"
    using toDouble_error by blast
  have "a' \<le> 100 * (a * (1 + e))"
    using a'(2) by (simp add: e_def algebra_simps)
  also have "a * (1 + e) \<le> x * (1 + e) * (1 + e)"
    using a_hi e by (intro mult_right_mono) simp_all
  also have "x * (1 + e) * (1 + e) < y * (1 - e) * (1 - e)"
    using ratio_gap [of G T e] G T e(1) small by (simp add: x_def y_def mult.assoc)
  also have "y * (1 - e) * (1 - e) \<le> b * (1 - e)"
    using b_lo half by (intro mult_right_mono) simp_all
  also have "100 * (b * (1 - e)) \<le> b'"
    using b'(2) by (simp add: e_def algebra_simps)
  finally have less: "a' < b'" by simp
  from assms have gx: "ofNat g = Finite G" and tx: "ofNat t = Finite T"
    and t1x: "ofNat (Suc t) = Finite (T + 1)"
    by (simp_all add: ofNat_exact G_def T_def add.commute)
  from T have "T + 1 \<noteq> 0" "T \<noteq> 0" by simp_all
  then have "jsDivide (ofNat g) (ofNat (Suc t)) = Finite a"
    and "jsDivide (ofNat g) (ofNat t) = Finite b"
    by (simp_all add: gx tx t1x a(1) [unfolded x_def] b(1) [unfolded y_def])
  with a'(1) b'(1) less show ?thesis by simp
qed

section \<open>Properties of the analytics aggregators\<close>

subsection \<open>Arithmetic on the doubles of the examples\<close>

lemma foldl_floatSum:
  "foldl (\<lambda>sum metric. jsPlus sum (f metric)) (Finite 0) ms = floatSum (map f ms)"
  by (simp add: floatSum_def foldl_map)

lemma length_filter_count_list:
  "length (filter (\<lambda>x. f x = v) xs) = count_list (map f xs) v"
  by (induction xs) simp_all

lemma summarizeHealth_nonempty:
  "ms \<noteq> [] \<Longrightarrow>
   summarizeHealth ms =
     \<lparr>averageUptime = arithmeticMean (map (\<lambda>m. Number (uptime m)) ms),
      averageMTTR = arithmeticMean (map (\<lambda>m. ofInteger (mttr m)) ms),
      averageMTBF = arithmeticMean (map (\<lambda>m. ofInteger (mtbf m)) ms),
      averageResourceUtilization = arithmeticMean (map (\<lambda>m. Number (resourceUtilization m)) ms),
      averageOccupancy = arithmeticMean (map (\<lambda>m. Number (occupancy m)) ms)\<rparr>"
  by (simp add: summarizeHealth_def arithmeticMean_def foldl_floatSum)

lemma arithmeticMean3:
  "arithmeticMean [a, b, c] = jsDivide (jsPlus (jsPlus (jsPlus (Finite 0) a) b) c) (ofNat 3)"
  by (simp add: arithmeticMean_def floatSum_def numeral_3_eq_3)

lemma uptime_exampleMetric: "uptime (exampleMetric u) = u"
  by (simp add: exampleMetric_def)

lemma averageUptime3:
  "averageUptime (summarizeHealth [exampleMetric a, exampleMetric b, exampleMetric c])
     = jsDivide (jsPlus (jsPlus (jsPlus (Finite 0) (Number a)) (Number b)) (Number c)) (ofNat 3)"
  by (simp add: summarizeHealth_nonempty arithmeticMean3 uptime_exampleMetric)

lemma ofNat_3: "ofNat 3 = Finite 3"
  by code_simp

lemma ofNat_8: "ofNat 8 = Finite 8"
  by code_simp

lemma ofNat_10: "ofNat 10 = Finite 10"
  by code_simp

lemma Number_98: "Number 98 = Finite 98"
  by code_simp

lemma Number_99: "Number 99 = Finite 99"
  by code_simp

lemma Number_100: "Number 100 = Finite 100"
  by code_simp

lemma plus_0_98: "jsPlus (Finite 0) (Finite 98) = Finite 98"
  by code_simp

lemma plus_98_99: "jsPlus (Finite 98) (Finite 99) = Finite 197"
  by code_simp

lemma plus_197_100: "jsPlus (Finite 197) (Finite 100) = Finite 297"
  by code_simp

lemma divide_297_3: "jsDivide (Finite 297) (Finite 3) = Finite 99"
  by code_simp

lemma divide_8_10: "jsDivide (Finite 8) (Finite 10) = Finite (3602879701896397 / 4503599627370496)"
  by code_simp

lemma times_08_100: "jsTimes (Finite (3602879701896397 / 4503599627370496)) (Finite 100) = Finite 80"
  by code_simp

lemma Number_991: "Number (991 / 10) = Finite (3486771274003251 / 35184372088832)"
  by code_simp

lemma Number_992: "Number (992 / 10) = Finite (6980579422424269 / 70368744177664)"
  by code_simp

lemma Number_993: "Number (993 / 10) = Finite (6987616296842035 / 70368744177664)"
  by code_simp

lemma plus_0_991:
  "jsPlus (Finite 0) (Finite (3486771274003251 / 35184372088832))
     = Finite (3486771274003251 / 35184372088832)"
  by code_simp

lemma plus_991_992:
  "jsPlus (Finite (3486771274003251 / 35184372088832)) (Finite (6980579422424269 / 70368744177664))
     = Finite (3488530492607693 / 17592186044416)"
  by code_simp

lemma plus_991_992_993:
  "jsPlus (Finite (3488530492607693 / 17592186044416)) (Finite (6987616296842035 / 70368744177664))
     = Finite (2617717283409101 / 8796093022208)"
  by code_simp

lemma plus_991_993:
  "jsPlus (Finite (3486771274003251 / 35184372088832)) (Finite (6987616296842035 / 70368744177664))
     = Finite (1745144855606067 / 8796093022208)"
  by code_simp

lemma plus_991_993_992:
  "jsPlus (Finite (1745144855606067 / 8796093022208)) (Finite (6980579422424269 / 70368744177664))
     = Finite (5235434566818201 / 17592186044416)"
  by code_simp

lemma divide_sum1_3:
  "jsDivide (Finite (2617717283409101 / 8796093022208)) (Finite 3)
     = Finite (6980579422424269 / 70368744177664)"
  by code_simp

lemma divide_sum2_3:
  "jsDivide (Finite (5235434566818201 / 17592186044416)) (Finite 3)
     = Finite (1745144855606067 / 17592186044416)"
  by code_simp

lemma averageUptime_order1:
  "averageUptime (summarizeHealth
      [exampleMetric (991 / 10), exampleMetric (992 / 10), exampleMetric (993 / 10)])
     = Finite (6980579422424269 / 70368744177664)"
  by (simp only: averageUptime3 Number_991 Number_992 Number_993 plus_0_991 plus_991_992
      plus_991_992_993 ofNat_3 divide_sum1_3)

lemma averageUptime_order2:
  "averageUptime (summarizeHealth
      [exampleMetric (991 / 10), exampleMetric (993 / 10), exampleMetric (992 / 10)])
     = Finite (1745144855606067 / 17592186044416)"
  by (simp only: averageUptime3 Number_991 Number_992 Number_993 plus_0_991 plus_991_993
      plus_991_993_992 ofNat_3 divide_sum2_3)

lemma averageUptime_98_99_100:
  "averageUptime (summarizeHealth [exampleMetric 98, exampleMetric 99, exampleMetric 100])
     = Finite 99"
  by (simp only: averageUptime3 Number_98 Number_99 Number_100 plus_0_98 plus_98_99
      plus_197_100 ofNat_3 divide_297_3)


lemma length_exampleDays:
  "length (replicate 8 (exampleDay ''healthy'') @ [exampleDay ''issues'', exampleDay ''down''])
     = 10"
  by simp

lemma status_exampleDay: "status (exampleDay st) = st"
  by (simp add: exampleDay_def)

lemma count_healthy_exampleDays:
  "count_list
     (map status (replicate 8 (exampleDay ''healthy'') @ [exampleDay ''issues'', exampleDay ''down'']))
     ''healthy'' = 8"
proof -
  have "count_list (replicate n ''healthy'' @ [''issues'', ''down'']) ''healthy'' = n" for n
    by (induction n) simp_all
  then show ?thesis
    by (simp add: status_exampleDay)
qed

subsection \<open>The health summary\<close>

lemma foldl_jsPlus_integers:
  "\<bar>a\<bar> + (\<Sum>v\<leftarrow>vs. \<bar>v\<bar>) < 2 ^ 53 \<Longrightarrow>
   foldl jsPlus (Finite (of_int a)) (map ofInteger vs) = Finite (of_int (a + sum_list vs))"
proof (induction vs arbitrary: a)
  case Nil
  then show ?case by simp
next
  case (Cons v vs)
  have nonneg: "0 \<le> (\<Sum>v\<leftarrow>vs. \<bar>v\<bar>)"
    by (rule sum_list_nonneg) auto
  with Cons.prems have v: "\<bar>v\<bar> < 2 ^ 53" and av: "\<bar>a + v\<bar> < 2 ^ 53"
    and rest: "\<bar>a + v\<bar> + (\<Sum>v\<leftarrow>vs. \<bar>v\<bar>) < 2 ^ 53"
    by simp_all
  have "jsPlus (Finite (of_int a)) (ofInteger v) = toDouble (of_int (a + v))"
    by (simp add: ofInteger_exact [OF v])
  also have "\<dots> = Finite (of_int (a + v))"
    using av by (rule toDouble_of_int)
  finally have step: "jsPlus (Finite (of_int a)) (ofInteger v) = Finite (of_int (a + v))" .
  have "foldl jsPlus (Finite (of_int a)) (map ofInteger (v # vs))
          = foldl jsPlus (Finite (of_int (a + v))) (map ofInteger vs)"
    by (simp add: step)
  also have "\<dots> = Finite (of_int (a + v + sum_list vs))"
    using rest by (rule Cons.IH)
  finally show ?case by (simp add: add.assoc)
qed

lemma floatSum_integers:
  assumes "(\<Sum>v\<leftarrow>vs. \<bar>v\<bar>) < 2 ^ 53"
  shows "floatSum (map ofInteger vs) = Finite (of_int (sum_list vs))"
  using foldl_jsPlus_integers [of 0 vs] assms by (simp add: floatSum_def)

lemma arithmeticMean_integers:
  assumes "vs \<noteq> []" and "(\<Sum>v\<leftarrow>vs. \<bar>v\<bar>) < 2 ^ 53" and "length vs < 2 ^ 32"
  shows "arithmeticMean (map ofInteger vs) = toDouble (of_int (sum_list vs) / of_nat (length vs))"
proof -
  have "(2::nat) ^ 32 \<le> 2 ^ 53" by simp
  with assms(3) have "length vs < 2 ^ 53" by (rule less_le_trans)
  then have n: "ofNat (length vs) = Finite (of_nat (length vs))" by (rule ofNat_exact)
  from assms(1) have "of_nat (length vs) \<noteq> (0::rat)" by simp
  then have "jsDivide (Finite (of_int (sum_list vs))) (Finite (of_nat (length vs)))
               = toDouble (of_int (sum_list vs) / of_nat (length vs))"
    by (simp only: jsDivide.simps if_False)
  then show ?thesis
    by (simp only: arithmeticMean_def floatSum_integers [OF assms(2)] n length_map)
qed

text \<open>
  C5. For every non-empty sequence of metric records, each of the five averages of
  the health summary is the mean of its own field: the sum of the field over the
  records (floating-point summation in sequence order) divided by the record count.
  For the two integer fields this is the exact mean, rounded once, as long as the
  absolute values add up to less than \<open>2 ^ 53\<close>. Three records with uptime 98.0, 99.0
  and 100.0 give the average uptime 99.0.
\<close>

theorem summarizeHealth_means:
  assumes "metricsData \<noteq> []"
  shows "averageUptime (summarizeHealth metricsData)
           = arithmeticMean (map (\<lambda>m. Number (uptime m)) metricsData)
       \<and> averageMTTR (summarizeHealth metricsData)
           = arithmeticMean (map (\<lambda>m. ofInteger (mttr m)) metricsData)
       \<and> averageMTBF (summarizeHealth metricsData)
           = arithmeticMean (map (\<lambda>m. ofInteger (mtbf m)) metricsData)
       \<and> averageResourceUtilization (summarizeHealth metricsData)
           = arithmeticMean (map (\<lambda>m. Number (resourceUtilization m)) metricsData)
       \<and> averageOccupancy (summarizeHealth metricsData)
           = arithmeticMean (map (\<lambda>m. Number (occupancy m)) metricsData)
       \<and> ((\<Sum>m\<leftarrow>metricsData. \<bar>mttr m\<bar>) < 2 ^ 53 \<and> length metricsData < 2 ^ 32 \<longrightarrow>
            averageMTTR (summarizeHealth metricsData)
              = toDouble (of_int (\<Sum>m\<leftarrow>metricsData. mttr m) / of_nat (length metricsData)))
       \<and> ((\<Sum>m\<leftarrow>metricsData. \<bar>mtbf m\<bar>) < 2 ^ 53 \<and> length metricsData < 2 ^ 32 \<longrightarrow>
            averageMTBF (summarizeHealth metricsData)
              = toDouble (of_int (\<Sum>m\<leftarrow>metricsData. mtbf m) / of_nat (length metricsData)))"
proof -
  have exact: "arithmeticMean (map (\<lambda>m. ofInteger (f m)) metricsData)
                 = toDouble (of_int (\<Sum>m\<leftarrow>metricsData. f m) / of_nat (length metricsData))"
    if "(\<Sum>m\<leftarrow>metricsData. \<bar>f m\<bar>) < 2 ^ 53 \<and> length metricsData < 2 ^ 32" for f
  proof -
    from assms have ne: "map f metricsData \<noteq> []" by simp
    from that have s: "(\<Sum>v\<leftarrow>map f metricsData. \<bar>v\<bar>) < 2 ^ 53"
      and l: "length (map f metricsData) < 2 ^ 32"
      by (simp_all add: comp_def)
    from arithmeticMean_integers [OF ne s l] show ?thesis
      by (simp add: comp_def)
  qed
  from assms show ?thesis
    by (simp add: summarizeHealth_nonempty exact)
qed

theorem summarizeHealth_means_witness:
  "[exampleMetric 98, exampleMetric 99, exampleMetric 100] \<noteq> []
   \<and> arithmeticMean (map (\<lambda>m. Number (uptime m))
         [exampleMetric 98, exampleMetric 99, exampleMetric 100]) = Finite 99
   \<and> averageUptime (summarizeHealth [exampleMetric 98, exampleMetric 99, exampleMetric 100])
       = Finite 99"
proof -
  have ne: "[exampleMetric 98, exampleMetric 99, exampleMetric 100] \<noteq> []"
    by simp
  from summarizeHealth_means [OF ne] averageUptime_98_99_100 ne show ?thesis
    by simp
qed

subsection \<open>The green-days summary\<close>

text \<open>
  C6. For every non-empty sequence of daily status records, \<open>greenDays\<close>,
  \<open>yellowDays\<close> and \<open>redDays\<close> are the numbers of records with status \<open>healthy\<close>,
  \<open>issues\<close> and \<open>down\<close>, \<open>totalDays\<close> is the length of the sequence, and
  \<open>greenDaysPercentage\<close> is \<open>greenDays / totalDays * 100\<close>. Ten records, eight of
  them healthy, one with issues and one down, give 8, 10 and 80.0.
\<close>

theorem summarizeGreenDays_counts:
  assumes "statusData \<noteq> []"
  shows "greenDays (summarizeGreenDays statusData) = count_list (map status statusData) ''healthy''
       \<and> yellowDays (summarizeGreenDays statusData) = count_list (map status statusData) ''issues''
       \<and> redDays (summarizeGreenDays statusData) = count_list (map status statusData) ''down''
       \<and> totalDays (summarizeGreenDays statusData) = length statusData
       \<and> greenDaysPercentage (summarizeGreenDays statusData)
           = jsTimes (jsDivide (ofNat (greenDays (summarizeGreenDays statusData)))
                        (ofNat (totalDays (summarizeGreenDays statusData))))
               (Finite 100)"
  using assms by (simp add: summarizeGreenDays_def Let_def length_filter_count_list)

theorem summarizeGreenDays_counts_witness:
  "replicate 8 (exampleDay ''healthy'') @ [exampleDay ''issues'', exampleDay ''down''] \<noteq> []
   \<and> greenDays (summarizeGreenDays
        (replicate 8 (exampleDay ''healthy'') @ [exampleDay ''issues'', exampleDay ''down''])) = 8
   \<and> totalDays (summarizeGreenDays
        (replicate 8 (exampleDay ''healthy'') @ [exampleDay ''issues'', exampleDay ''down''])) = 10
   \<and> greenDaysPercentage (summarizeGreenDays
        (replicate 8 (exampleDay ''healthy'') @ [exampleDay ''issues'', exampleDay ''down'']))
       = Finite 80"
proof -
  let ?ds = "replicate 8 (exampleDay ''healthy'') @ [exampleDay ''issues'', exampleDay ''down'']"
  have ne: "?ds \<noteq> []"
    by simp
  have g: "greenDays (summarizeGreenDays ?ds) = 8"
    using summarizeGreenDays_counts [OF ne] by (simp only: count_healthy_exampleDays)
  have l: "totalDays (summarizeGreenDays ?ds) = 10"
    using summarizeGreenDays_counts [OF ne] by (simp only: length_exampleDays)
  have "greenDaysPercentage (summarizeGreenDays ?ds)
          = jsTimes (jsDivide (ofNat 8) (ofNat 10)) (Finite 100)"
    using summarizeGreenDays_counts [OF ne] by (simp only: g l)
  then have "greenDaysPercentage (summarizeGreenDays ?ds) = Finite 80"
    by (simp only: ofNat_8 ofNat_10 divide_8_10 times_08_100)
  with ne g l show ?thesis
    by (intro conjI)
qed

subsection \<open>Records of other status\<close>

lemma greenDays_eq:
  "greenDays (summarizeGreenDays ds) = length (filter (\<lambda>day. status day = ''healthy'') ds)"
  by (simp add: summarizeGreenDays_def Let_def)

lemma yellowDays_eq:
  "yellowDays (summarizeGreenDays ds) = length (filter (\<lambda>day. status day = ''issues'') ds)"
  by (simp add: summarizeGreenDays_def Let_def)

lemma redDays_eq:
  "redDays (summarizeGreenDays ds) = length (filter (\<lambda>day. status day = ''down'') ds)"
  by (simp add: summarizeGreenDays_def Let_def)

lemma totalDays_eq: "totalDays (summarizeGreenDays ds) = length ds"
  by (simp add: summarizeGreenDays_def Let_def)

lemma greenDaysPercentage_nonempty:
  "ds \<noteq> [] \<Longrightarrow>
   greenDaysPercentage (summarizeGreenDays ds)
     = jsTimes (jsDivide (ofNat (length (filter (\<lambda>day. status day = ''healthy'') ds)))
                  (ofNat (length ds))) (Finite 100)"
  by (simp add: summarizeGreenDays_def Let_def)

lemma category_counts_le:
  "length (filter (\<lambda>day. status day = ''healthy'') ds)
   + length (filter (\<lambda>day. status day = ''issues'') ds)
   + length (filter (\<lambda>day. status day = ''down'') ds) \<le> length ds"
  by (induction ds) auto

lemma category_counts_eq_iff:
  "length (filter (\<lambda>day. status day = ''healthy'') ds)
   + length (filter (\<lambda>day. status day = ''issues'') ds)
   + length (filter (\<lambda>day. status day = ''down'') ds) = length ds
   \<longleftrightarrow> list_all knownStatus ds"
proof (induction ds)
  case Nil
  then show ?case by simp
next
  case (Cons d ds)
  show ?case
  proof (cases "knownStatus d")
    case True
    with Cons show ?thesis
      by (auto simp: knownStatus_def)
  next
    case False
    with category_counts_le [of ds] show ?thesis
      by (auto simp: knownStatus_def)
  qed
qed

lemma percentage_other_status:
  assumes "\<not> knownStatus r" and "length (xs @ r # ys) < 2 ^ 32"
  shows "jsLessEq (greenDaysPercentage (summarizeGreenDays (xs @ r # ys)))
                  (greenDaysPercentage (summarizeGreenDays (xs @ ys)))"
proof -
  define g where "g = length (filter (\<lambda>day. status day = ''healthy'') (xs @ ys))"
  define t where "t = length (xs @ ys)"
  from assms(1) have g': "length (filter (\<lambda>day. status day = ''healthy'') (xs @ r # ys)) = g"
    by (simp add: g_def knownStatus_def)
  have t': "length (xs @ r # ys) = Suc t" by (simp add: t_def)
  have after: "greenDaysPercentage (summarizeGreenDays (xs @ r # ys))
                 = jsTimes (jsDivide (ofNat g) (ofNat (Suc t))) (Finite 100)"
  proof -
    have ne: "xs @ r # ys \<noteq> []" by simp
    show ?thesis
      by (simp only: greenDaysPercentage_nonempty [OF ne] g' t')
  qed
  show ?thesis
  proof (cases "xs @ ys = []")
    case True
    then have "g = 0" "t = 0" by (simp_all add: g_def t_def)
    moreover have "ofNat 0 = Finite 0" "ofNat (Suc 0) = Finite 1"
      using ofNat_exact [of 0] ofNat_exact [of "Suc 0"] by simp_all
    moreover have "toDouble 0 = Finite 0" by (simp add: toDouble_def)
    ultimately have "greenDaysPercentage (summarizeGreenDays (xs @ r # ys)) = Finite 0"
      by (simp add: after)
    moreover from True have "greenDaysPercentage (summarizeGreenDays (xs @ ys)) = Finite 0"
      by (simp add: summarizeGreenDays_def)
    ultimately show ?thesis by simp
  next
    case False
    then have before: "greenDaysPercentage (summarizeGreenDays (xs @ ys))
                 = jsTimes (jsDivide (ofNat g) (ofNat t)) (Finite 100)"
      unfolding g_def t_def by (rule greenDaysPercentage_nonempty)
    from False have tpos: "0 < t" by (simp add: t_def)
    have gt: "g \<le> t" unfolding g_def t_def by (rule length_filter_le)
    have "(2::nat) ^ 32 \<le> 2 ^ 53" by simp
    with assms(2) have "Suc t < 2 ^ 53" unfolding t' by (rule less_le_trans)
    with gt tpos show ?thesis
      unfolding after before by (rule percentage_antimono)
  qed
qed

lemma percentage_other_status_strict:
  assumes "\<not> knownStatus r" and "length (xs @ r # ys) < 2 ^ 32"
    and "0 < greenDays (summarizeGreenDays (xs @ ys))"
  shows "jsLess (greenDaysPercentage (summarizeGreenDays (xs @ r # ys)))
                (greenDaysPercentage (summarizeGreenDays (xs @ ys)))"
proof -
  define g where "g = length (filter (\<lambda>day. status day = ''healthy'') (xs @ ys))"
  define t where "t = length (xs @ ys)"
  from assms(1) have g': "length (filter (\<lambda>day. status day = ''healthy'') (xs @ r # ys)) = g"
    by (simp add: g_def knownStatus_def)
  have t': "length (xs @ r # ys) = Suc t" by (simp add: t_def)
  have ne: "xs @ r # ys \<noteq> []" by simp
  have after: "greenDaysPercentage (summarizeGreenDays (xs @ r # ys))
                 = jsTimes (jsDivide (ofNat g) (ofNat (Suc t))) (Finite 100)"
    by (simp only: greenDaysPercentage_nonempty [OF ne] g' t')
  from assms(3) have gpos: "0 < g" by (simp only: greenDays_eq g_def)
  then have "xs @ ys \<noteq> []" by (auto simp: g_def)
  then have before: "greenDaysPercentage (summarizeGreenDays (xs @ ys))
                 = jsTimes (jsDivide (ofNat g) (ofNat t)) (Finite 100)"
    unfolding g_def t_def by (rule greenDaysPercentage_nonempty)
  have gt: "g \<le> t" unfolding g_def t_def by (rule length_filter_le)
  from assms(2) have "Suc t < 2 ^ 32" by (simp only: t')
  with gpos gt show ?thesis
    unfolding after before by (rule percentage_strict)
qed

lemma percentage_zero:
  assumes "0 < t" and "t < 2 ^ 53"
  shows "jsTimes (jsDivide (ofNat 0) (ofNat t)) (Finite 100) = Finite 0"
proof -
  have z: "toDouble 0 = Finite 0" by (simp add: toDouble_def)
  from assms(2) have t: "ofNat t = Finite (of_nat t)" by (rule ofNat_exact)
  have "ofNat 0 = Finite 0" using ofNat_exact [of 0] by simp
  with assms(1) show ?thesis by (simp add: t z)
qed

lemma percentage_other_status_zero:
  assumes "\<not> knownStatus r" and "length (xs @ r # ys) < 2 ^ 32"
    and "greenDays (summarizeGreenDays (xs @ ys)) = 0"
  shows "greenDaysPercentage (summarizeGreenDays (xs @ r # ys)) = Finite 0"
    and "greenDaysPercentage (summarizeGreenDays (xs @ ys)) = Finite 0"
proof -
  from assms(3) have g: "length (filter (\<lambda>day. status day = ''healthy'') (xs @ ys)) = 0"
    by (simp only: greenDays_eq)
  with assms(1) have g': "length (filter (\<lambda>day. status day = ''healthy'') (xs @ r # ys)) = 0"
    by (simp add: knownStatus_def)
  have "(2::nat) ^ 32 \<le> 2 ^ 53" by simp
  with assms(2) have l: "length (xs @ r # ys) < 2 ^ 53" by (rule less_le_trans)
  have ne: "xs @ r # ys \<noteq> []" by simp
  have pos: "0 < length (xs @ r # ys)" by simp
  show "greenDaysPercentage (summarizeGreenDays (xs @ r # ys)) = Finite 0"
    by (simp only: greenDaysPercentage_nonempty [OF ne] g' percentage_zero [OF pos l])
  show "greenDaysPercentage (summarizeGreenDays (xs @ ys)) = Finite 0"
  proof (cases "xs @ ys = []")
    case True
    then show ?thesis by (simp add: summarizeGreenDays_def)
  next
    case False
    then have pos': "0 < length (xs @ ys)" by simp
    from l have l': "length (xs @ ys) < 2 ^ 53" by simp
    show ?thesis
      by (simp only: greenDaysPercentage_nonempty [OF False] g percentage_zero [OF pos' l'])
  qed
qed

text \<open>
  C9. For every sequence of daily status records the three category counts add up to
  at most \<open>totalDays\<close>, with equality exactly when every record has one of the three
  status values \<open>healthy\<close>, \<open>issues\<close>, \<open>down\<close>. A record of any other status,
  inserted anywhere into a sequence (of fewer than \<open>2 ^ 32\<close> elements, the bound of
  a JavaScript array), adds one to \<open>totalDays\<close> and leaves the three counts as they
  are. It never raises \<open>greenDaysPercentage\<close>: the percentage falls when there is a
  healthy day, and stays 0 when there is none.
\<close>

theorem greenDays_partition:
  "greenDays (summarizeGreenDays ds) + yellowDays (summarizeGreenDays ds)
     + redDays (summarizeGreenDays ds) \<le> totalDays (summarizeGreenDays ds)
   \<and> (greenDays (summarizeGreenDays ds) + yellowDays (summarizeGreenDays ds)
        + redDays (summarizeGreenDays ds) = totalDays (summarizeGreenDays ds)
      \<longleftrightarrow> list_all knownStatus ds)
   \<and> (\<not> knownStatus r \<and> length (xs @ r # ys) < 2 ^ 32 \<longrightarrow>
        totalDays (summarizeGreenDays (xs @ r # ys)) = totalDays (summarizeGreenDays (xs @ ys)) + 1
      \<and> greenDays (summarizeGreenDays (xs @ r # ys)) = greenDays (summarizeGreenDays (xs @ ys))
      \<and> yellowDays (summarizeGreenDays (xs @ r # ys)) = yellowDays (summarizeGreenDays (xs @ ys))
      \<and> redDays (summarizeGreenDays (xs @ r # ys)) = redDays (summarizeGreenDays (xs @ ys))
      \<and> jsLessEq (greenDaysPercentage (summarizeGreenDays (xs @ r # ys)))
                  (greenDaysPercentage (summarizeGreenDays (xs @ ys)))
      \<and> (0 < greenDays (summarizeGreenDays (xs @ ys)) \<longrightarrow>
            jsLess (greenDaysPercentage (summarizeGreenDays (xs @ r # ys)))
                   (greenDaysPercentage (summarizeGreenDays (xs @ ys))))
      \<and> (greenDays (summarizeGreenDays (xs @ ys)) = 0 \<longrightarrow>
            greenDaysPercentage (summarizeGreenDays (xs @ r # ys)) = Finite 0
          \<and> greenDaysPercentage (summarizeGreenDays (xs @ ys)) = Finite 0))"
proof (intro conjI impI)
  show "greenDays (summarizeGreenDays ds) + yellowDays (summarizeGreenDays ds)
     + redDays (summarizeGreenDays ds) \<le> totalDays (summarizeGreenDays ds)"
    by (simp only: greenDays_eq yellowDays_eq redDays_eq totalDays_eq category_counts_le)
  show "greenDays (summarizeGreenDays ds) + yellowDays (summarizeGreenDays ds)
        + redDays (summarizeGreenDays ds) = totalDays (summarizeGreenDays ds)
      \<longleftrightarrow> list_all knownStatus ds"
    by (simp only: greenDays_eq yellowDays_eq redDays_eq totalDays_eq category_counts_eq_iff)
next
  assume h: "\<not> knownStatus r \<and> length (xs @ r # ys) < 2 ^ 32"
  show "totalDays (summarizeGreenDays (xs @ r # ys)) = totalDays (summarizeGreenDays (xs @ ys)) + 1"
    by (simp add: totalDays_eq)
  from h show "greenDays (summarizeGreenDays (xs @ r # ys)) = greenDays (summarizeGreenDays (xs @ ys))"
    by (simp add: greenDays_eq knownStatus_def)
  from h show "yellowDays (summarizeGreenDays (xs @ r # ys)) = yellowDays (summarizeGreenDays (xs @ ys))"
    by (simp add: yellowDays_eq knownStatus_def)
  from h show "redDays (summarizeGreenDays (xs @ r # ys)) = redDays (summarizeGreenDays (xs @ ys))"
    by (simp add: redDays_eq knownStatus_def)
  from h show "jsLessEq (greenDaysPercentage (summarizeGreenDays (xs @ r # ys)))
                  (greenDaysPercentage (summarizeGreenDays (xs @ ys)))"
    by (simp add: percentage_other_status)
  show "jsLess (greenDaysPercentage (summarizeGreenDays (xs @ r # ys)))
               (greenDaysPercentage (summarizeGreenDays (xs @ ys)))"
    if "0 < greenDays (summarizeGreenDays (xs @ ys))"
    using h that by (simp add: percentage_other_status_strict)
  show "greenDaysPercentage (summarizeGreenDays (xs @ r # ys)) = Finite 0"
    if "greenDays (summarizeGreenDays (xs @ ys)) = 0"
    using h that by (simp add: percentage_other_status_zero(1))
  show "greenDaysPercentage (summarizeGreenDays (xs @ ys)) = Finite 0"
    if "greenDays (summarizeGreenDays (xs @ ys)) = 0"
    using h that percentage_other_status_zero(2) [of r xs ys] by simp
qed

theorem greenDays_partition_witness:
  "\<not> knownStatus (exampleDay ''maintenance'')
   \<and> length ([exampleDay ''healthy''] @ exampleDay ''maintenance'' # [exampleDay ''down'']) < 2 ^ 32
   \<and> greenDays (summarizeGreenDays
          ([exampleDay ''healthy''] @ exampleDay ''maintenance'' # [exampleDay ''down'']))
       + yellowDays (summarizeGreenDays
          ([exampleDay ''healthy''] @ exampleDay ''maintenance'' # [exampleDay ''down'']))
       + redDays (summarizeGreenDays
          ([exampleDay ''healthy''] @ exampleDay ''maintenance'' # [exampleDay ''down''])) = 2
   \<and> totalDays (summarizeGreenDays
          ([exampleDay ''healthy''] @ exampleDay ''maintenance'' # [exampleDay ''down''])) = 3
   \<and> totalDays (summarizeGreenDays ([exampleDay ''healthy''] @ [exampleDay ''down''])) = 2
   \<and> 0 < greenDays (summarizeGreenDays ([exampleDay ''healthy''] @ [exampleDay ''down'']))
   \<and> jsLess
         (greenDaysPercentage (summarizeGreenDays
            ([exampleDay ''healthy''] @ exampleDay ''maintenance'' # [exampleDay ''down''])))
         (greenDaysPercentage (summarizeGreenDays
            ([exampleDay ''healthy''] @ [exampleDay ''down''])))"
proof -
  let ?r = "exampleDay ''maintenance''"
  let ?xs = "[exampleDay ''healthy'']"
  let ?ys = "[exampleDay ''down'']"
  have k: "\<not> knownStatus ?r"
    by (simp add: knownStatus_def status_exampleDay)
  have l: "length (?xs @ ?r # ?ys) < 2 ^ 32"
    by simp
  have s: "greenDays (summarizeGreenDays (?xs @ ?r # ?ys))
       + yellowDays (summarizeGreenDays (?xs @ ?r # ?ys))
       + redDays (summarizeGreenDays (?xs @ ?r # ?ys)) = 2"
    by (simp add: greenDays_eq yellowDays_eq redDays_eq status_exampleDay)
  have t: "totalDays (summarizeGreenDays (?xs @ ?ys)) = 2"
    by (simp add: totalDays_eq)
  have g: "0 < greenDays (summarizeGreenDays (?xs @ ?ys))"
    by (simp add: greenDays_eq status_exampleDay)
  from greenDays_partition [of "?xs @ ?r # ?ys" ?r ?xs ?ys] k l g
  have "totalDays (summarizeGreenDays (?xs @ ?r # ?ys))
          = totalDays (summarizeGreenDays (?xs @ ?ys)) + 1
      \<and> jsLess (greenDaysPercentage (summarizeGreenDays (?xs @ ?r # ?ys)))
                (greenDaysPercentage (summarizeGreenDays (?xs @ ?ys)))"
    by blast
  with k l s t g show ?thesis
    by simp
qed

text \<open>
  With no healthy day the percentage is not lowered: for the single record \<open>down\<close>
  it is 0, and it is 0 again after a record of status \<open>maintenance\<close> is added.
\<close>

theorem greenDaysPercentage_not_lowered_counterexample:
  "\<not> knownStatus (exampleDay ''maintenance'')
   \<and> totalDays (summarizeGreenDays [exampleDay ''down'', exampleDay ''maintenance'']) = 2
   \<and> greenDaysPercentage (summarizeGreenDays [exampleDay ''down'']) = Finite 0
   \<and> greenDaysPercentage (summarizeGreenDays [exampleDay ''down'', exampleDay ''maintenance''])
       = Finite 0
   \<and> \<not> jsLess
         (greenDaysPercentage (summarizeGreenDays [exampleDay ''down'', exampleDay ''maintenance'']))
         (greenDaysPercentage (summarizeGreenDays [exampleDay ''down'']))"
proof -
  have k: "\<not> knownStatus (exampleDay ''maintenance'')"
    by (simp add: knownStatus_def status_exampleDay)
  have t: "totalDays (summarizeGreenDays [exampleDay ''down'', exampleDay ''maintenance'']) = 2"
    by (simp add: totalDays_eq)
  have l: "length ([exampleDay ''down''] @ exampleDay ''maintenance'' # []) < 2 ^ 32"
    by simp
  have g: "greenDays (summarizeGreenDays ([exampleDay ''down''] @ [])) = 0"
    by (simp add: greenDays_eq status_exampleDay)
  from percentage_other_status_zero [OF k l g]
  have a: "greenDaysPercentage (summarizeGreenDays [exampleDay ''down'', exampleDay ''maintenance''])
             = Finite 0"
    and b: "greenDaysPercentage (summarizeGreenDays [exampleDay ''down'']) = Finite 0"
    by simp_all
  from k t a b show ?thesis
    by simp
qed

subsection \<open>Empty input\<close>

lemma runQ_Nil: "runQ q [] = []"
  by (cases q) (simp_all add: runQ_def)

lemma getMetrics_Nil: "getMetrics chain [] envId startD endD = []"
  by (simp add: getMetrics_def runQ_Nil)

lemma getDailyStatus_Nil: "getDailyStatus chain [] envId startD endD = []"
  by (simp add: getDailyStatus_def runQ_Nil)

lemma toDouble_0: "toDouble 0 = Finite 0"
  by (simp add: toDouble_def)

lemma ofNat_0: "ofNat 0 = Finite 0"
  by (simp add: ofNat_def toDouble_0)

text \<open>
  C7. On the empty sequence both aggregators return the all-zero summary, also when
  reached through the two analytics operations on an empty table. The zero is the
  result of the early return: the quotient by the length of the empty sequence,
  \<open>0 / 0\<close>, would be NaN.
\<close>

theorem empty_summaries:
  "summarizeHealth []
     = \<lparr>averageUptime = Finite 0, averageMTTR = Finite 0, averageMTBF = Finite 0,
        averageResourceUtilization = Finite 0, averageOccupancy = Finite 0\<rparr>
   \<and> summarizeGreenDays []
     = \<lparr>totalDays = 0, greenDays = 0, yellowDays = 0, redDays = 0,
        greenDaysPercentage = Finite 0\<rparr>
   \<and> getEnvironmentHealthAnalytics chain [] envId startD endD = summarizeHealth []
   \<and> getGreenDaysAnalytics chain' [] envId startD endD = summarizeGreenDays []
   \<and> jsDivide (Finite 0) (ofNat (length ([] :: Metric list))) = NaN"
proof (intro conjI)
  show "summarizeHealth []
     = \<lparr>averageUptime = Finite 0, averageMTTR = Finite 0, averageMTBF = Finite 0,
        averageResourceUtilization = Finite 0, averageOccupancy = Finite 0\<rparr>"
    by (simp add: summarizeHealth_def)
  show "summarizeGreenDays []
     = \<lparr>totalDays = 0, greenDays = 0, yellowDays = 0, redDays = 0,
        greenDaysPercentage = Finite 0\<rparr>"
    by (simp add: summarizeGreenDays_def)
  show "getEnvironmentHealthAnalytics chain [] envId startD endD = summarizeHealth []"
    by (simp only: getEnvironmentHealthAnalytics_def getMetrics_Nil)
  show "getGreenDaysAnalytics chain' [] envId startD endD = summarizeGreenDays []"
    by (simp only: getGreenDaysAnalytics_def getDailyStatus_Nil)
  show "jsDivide (Finite 0) (ofNat (length ([] :: Metric list))) = NaN"
    by (simp add: ofNat_0)
qed

subsection \<open>Order of the input\<close>

lemma summarizeGreenDays_mset:
  "summarizeGreenDays ds =
     (if size (mset ds) = 0
      then \<lparr>totalDays = 0, greenDays = 0, yellowDays = 0, redDays = 0,
            greenDaysPercentage = Finite 0\<rparr>
      else \<lparr>totalDays = size (mset ds),
            greenDays = size (filter_mset (\<lambda>day. status day = ''healthy'') (mset ds)),
            yellowDays = size (filter_mset (\<lambda>day. status day = ''issues'') (mset ds)),
            redDays = size (filter_mset (\<lambda>day. status day = ''down'') (mset ds)),
            greenDaysPercentage =
              jsTimes (jsDivide
                  (ofNat (size (filter_mset (\<lambda>day. status day = ''healthy'') (mset ds))))
                  (ofNat (size (mset ds)))) (Finite 100)\<rparr>)"
  by (simp add: summarizeGreenDays_def Let_def flip: mset_filter)

lemma arithmeticMean_integers_perm:
  assumes "mset xs = mset ys" and "(\<Sum>x\<leftarrow>xs. \<bar>f x\<bar>) < 2 ^ 53"
  shows "arithmeticMean (map (\<lambda>x. ofInteger (f x)) xs)
       = arithmeticMean (map (\<lambda>x. ofInteger (f x)) ys)"
proof -
  from assms(1) have m: "mset (map f xs) = mset (map f ys)"
    by simp
  from assms(1) have a: "mset (map abs (map f xs)) = mset (map abs (map f ys))"
    by simp
  have s: "sum_list (map f xs) = sum_list (map f ys)"
    using m by (metis sum_mset_sum_list)
  have "sum_list (map abs (map f xs)) = sum_list (map abs (map f ys))"
    using a by (metis sum_mset_sum_list)
  with assms(2) have b: "(\<Sum>v\<leftarrow>map f ys. \<bar>v\<bar>) < 2 ^ 53" and b': "(\<Sum>v\<leftarrow>map f xs. \<bar>v\<bar>) < 2 ^ 53"
    by (simp_all add: comp_def)
  have l: "length xs = length ys"
    using assms(1) by (rule mset_eq_length)
  have "arithmeticMean (map ofInteger (map f xs)) = arithmeticMean (map ofInteger (map f ys))"
    by (simp only: arithmeticMean_def floatSum_integers [OF b] floatSum_integers [OF b'] s l
        length_map)
  then show ?thesis by (simp add: comp_def)
qed

lemma averageMTTR_perm:
  assumes "mset ms = mset ms'" and "(\<Sum>m\<leftarrow>ms. \<bar>mttr m\<bar>) < 2 ^ 53"
  shows "averageMTTR (summarizeHealth ms) = averageMTTR (summarizeHealth ms')"
proof (cases "ms = []")
  case True
  with assms(1) show ?thesis by simp
next
  case False
  with assms(1) have "ms' \<noteq> []" by auto
  with False show ?thesis
    by (simp add: summarizeHealth_nonempty arithmeticMean_integers_perm [OF assms])
qed

lemma averageMTBF_perm:
  assumes "mset ms = mset ms'" and "(\<Sum>m\<leftarrow>ms. \<bar>mtbf m\<bar>) < 2 ^ 53"
  shows "averageMTBF (summarizeHealth ms) = averageMTBF (summarizeHealth ms')"
proof (cases "ms = []")
  case True
  with assms(1) show ?thesis by simp
next
  case False
  with assms(1) have "ms' \<noteq> []" by auto
  with False show ?thesis
    by (simp add: summarizeHealth_nonempty arithmeticMean_integers_perm [OF assms])
qed

lemma mttr_exampleMetric: "mttr (exampleMetric u) = 45"
  by (simp add: exampleMetric_def)

lemma mtbf_exampleMetric: "mtbf (exampleMetric u) = 20160"
  by (simp add: exampleMetric_def)

text \<open>
  C8. The green-days summary does not depend on the order of its input: a sequence
  of daily status records and any permutation of it have the same summary. Of the
  health summary, the averages of the two integer fields, MTTR and MTBF, do not depend
  on the order as long as the absolute values of the field add up to less than
  \<open>2 ^ 53\<close>: every partial sum is then a double and no step rounds.
\<close>

theorem aggregators_perm:
  "(mset ds = mset ds' \<longrightarrow> summarizeGreenDays ds = summarizeGreenDays ds')
   \<and> (mset ms = mset ms' \<and> (\<Sum>m\<leftarrow>ms. \<bar>mttr m\<bar>) < 2 ^ 53
      \<longrightarrow> averageMTTR (summarizeHealth ms) = averageMTTR (summarizeHealth ms'))
   \<and> (mset ms = mset ms' \<and> (\<Sum>m\<leftarrow>ms. \<bar>mtbf m\<bar>) < 2 ^ 53
      \<longrightarrow> averageMTBF (summarizeHealth ms) = averageMTBF (summarizeHealth ms'))"
proof (intro conjI impI)
  show "summarizeGreenDays ds = summarizeGreenDays ds'" if "mset ds = mset ds'"
    by (simp only: summarizeGreenDays_mset that)
  show "averageMTTR (summarizeHealth ms) = averageMTTR (summarizeHealth ms')"
    if "mset ms = mset ms' \<and> (\<Sum>m\<leftarrow>ms. \<bar>mttr m\<bar>) < 2 ^ 53"
    using that by (simp add: averageMTTR_perm)
  show "averageMTBF (summarizeHealth ms) = averageMTBF (summarizeHealth ms')"
    if "mset ms = mset ms' \<and> (\<Sum>m\<leftarrow>ms. \<bar>mtbf m\<bar>) < 2 ^ 53"
    using that by (simp add: averageMTBF_perm)
qed

theorem aggregators_perm_witness:
  "mset [exampleDay ''healthy'', exampleDay ''issues'', exampleDay ''down'']
     = mset [exampleDay ''down'', exampleDay ''healthy'', exampleDay ''issues'']
   \<and> summarizeGreenDays [exampleDay ''healthy'', exampleDay ''issues'', exampleDay ''down'']
     = summarizeGreenDays [exampleDay ''down'', exampleDay ''healthy'', exampleDay ''issues'']
   \<and> mset [exampleMetric (991 / 10), exampleMetric (992 / 10), exampleMetric (993 / 10)]
     = mset [exampleMetric (991 / 10), exampleMetric (993 / 10), exampleMetric (992 / 10)]
   \<and> (\<Sum>m\<leftarrow>[exampleMetric (991 / 10), exampleMetric (992 / 10), exampleMetric (993 / 10)].
        \<bar>mttr m\<bar>) < 2 ^ 53
   \<and> (\<Sum>m\<leftarrow>[exampleMetric (991 / 10), exampleMetric (992 / 10), exampleMetric (993 / 10)].
        \<bar>mtbf m\<bar>) < 2 ^ 53
   \<and> averageMTTR (summarizeHealth
        [exampleMetric (991 / 10), exampleMetric (992 / 10), exampleMetric (993 / 10)])
     = averageMTTR (summarizeHealth
        [exampleMetric (991 / 10), exampleMetric (993 / 10), exampleMetric (992 / 10)])
   \<and> averageMTBF (summarizeHealth
        [exampleMetric (991 / 10), exampleMetric (992 / 10), exampleMetric (993 / 10)])
     = averageMTBF (summarizeHealth
        [exampleMetric (991 / 10), exampleMetric (993 / 10), exampleMetric (992 / 10)])"
proof -
  let ?ds = "[exampleDay ''healthy'', exampleDay ''issues'', exampleDay ''down'']"
  let ?ds' = "[exampleDay ''down'', exampleDay ''healthy'', exampleDay ''issues'']"
  let ?ms = "[exampleMetric (991 / 10), exampleMetric (992 / 10), exampleMetric (993 / 10)]"
  let ?ms' = "[exampleMetric (991 / 10), exampleMetric (993 / 10), exampleMetric (992 / 10)]"
  have d: "mset ?ds = mset ?ds'"
    by (simp add: add_mset_commute)
  have m: "mset ?ms = mset ?ms'"
    by (simp add: add_mset_commute)
  have r: "(\<Sum>m\<leftarrow>?ms. \<bar>mttr m\<bar>) < 2 ^ 53"
    by (simp add: mttr_exampleMetric)
  have b: "(\<Sum>m\<leftarrow>?ms. \<bar>mtbf m\<bar>) < 2 ^ 53"
    by (simp add: mtbf_exampleMetric)
  from aggregators_perm [of ?ds ?ds' ?ms ?ms'] d m r b show ?thesis
    by blast
qed

text \<open>
  The averages of the decimal fields do depend on the order: the sum of doubles is
  taken from left to right and is rounded at every step. The uptimes 99.1, 99.2, 99.3 in this order
  have the average 99.2 (the double nearest to it); in the order 99.1, 99.3, 99.2 the
  average is 99.19999999999999.
\<close>

theorem summarizeHealth_perm_counterexample:
  "mset [exampleMetric (991 / 10), exampleMetric (992 / 10), exampleMetric (993 / 10)]
     = mset [exampleMetric (991 / 10), exampleMetric (993 / 10), exampleMetric (992 / 10)]
   \<and> averageUptime (summarizeHealth
         [exampleMetric (991 / 10), exampleMetric (992 / 10), exampleMetric (993 / 10)])
       = Finite (6980579422424269 / 70368744177664)
   \<and> averageUptime (summarizeHealth
         [exampleMetric (991 / 10), exampleMetric (993 / 10), exampleMetric (992 / 10)])
       = Finite (1745144855606067 / 17592186044416)
   \<and> summarizeHealth [exampleMetric (991 / 10), exampleMetric (992 / 10), exampleMetric (993 / 10)]
     \<noteq> summarizeHealth [exampleMetric (991 / 10), exampleMetric (993 / 10), exampleMetric (992 / 10)]"
proof (intro conjI)
  show "mset [exampleMetric (991 / 10), exampleMetric (992 / 10), exampleMetric (993 / 10)]
     = mset [exampleMetric (991 / 10), exampleMetric (993 / 10), exampleMetric (992 / 10)]"
    by (simp add: add_mset_commute)
  show "averageUptime (summarizeHealth
         [exampleMetric (991 / 10), exampleMetric (992 / 10), exampleMetric (993 / 10)])
       = Finite (6980579422424269 / 70368744177664)"
    by (rule averageUptime_order1)
  show "averageUptime (summarizeHealth
         [exampleMetric (991 / 10), exampleMetric (993 / 10), exampleMetric (992 / 10)])
       = Finite (1745144855606067 / 17592186044416)"
    by (rule averageUptime_order2)
  have ne: "(6980579422424269 / 70368744177664 :: rat) \<noteq> 1745144855606067 / 17592186044416"
    by simp
  have "averageUptime (summarizeHealth
         [exampleMetric (991 / 10), exampleMetric (992 / 10), exampleMetric (993 / 10)])
     \<noteq> averageUptime (summarizeHealth
         [exampleMetric (991 / 10), exampleMetric (993 / 10), exampleMetric (992 / 10)])"
    by (simp only: averageUptime_order1 averageUptime_order2 number.inject ne not_False_eq_True)
  then show "summarizeHealth
         [exampleMetric (991 / 10), exampleMetric (992 / 10), exampleMetric (993 / 10)]
     \<noteq> summarizeHealth
         [exampleMetric (991 / 10), exampleMetric (993 / 10), exampleMetric (992 / 10)]"
    by metis
qed

subsection \<open>The environment filter\<close>

text \<open>
  C10. Both analytics operations, called with \<open>environmentId = 0\<close>, return what they
  return with \<open>environmentId\<close> absent, for every table and all date bounds: the
  filter on the environment is applied only to a truthy \<open>environmentId\<close>.
\<close>

theorem environmentId_zero_unfiltered:
  "getEnvironmentHealthAnalytics chain metrics (Some 0) startD endD
     = getEnvironmentHealthAnalytics chain metrics None startD endD
   \<and> getGreenDaysAnalytics chain' days (Some 0) startD endD
     = getGreenDaysAnalytics chain' days None startD endD"
  by (simp add: getEnvironmentHealthAnalytics_def getGreenDaysAnalytics_def getMetrics_def
      getDailyStatus_def)

end
